theory Spec2Isabelle
  imports Complex_Main
begin

section \<open>JavaScript numbers\<close>

text \<open>
  The monitor computes with JavaScript numbers (IEEE doubles). The model keeps what the
  control flow of the code depends on: a number is either \<open>NaN\<close> or a finite value.
  Finite values are exact reals: rounding and overflow are not modelled. The infinities are
  not modelled either: from finite inputs the modelled code produces one only by dividing
  by zero, and every division of the code is by a value tested non-zero before
  (a length after an emptiness test, the literal 2, a range tested \<open>> 0\<close>, a median
  tested \<open>> 0\<close>). Where the source would produce an infinity the model is left
  unspecified (\<open>undefined\<close>, or a missing equation).
\<close>

datatype jsnum = Num real | NaN

fun js_add :: "jsnum \<Rightarrow> jsnum \<Rightarrow> jsnum" where
  "js_add (Num a) (Num b) = Num (a + b)"
| "js_add _ _ = NaN"

fun js_sub :: "jsnum \<Rightarrow> jsnum \<Rightarrow> jsnum" where
  "js_sub (Num a) (Num b) = Num (a - b)"
| "js_sub _ _ = NaN"

fun js_mul :: "jsnum \<Rightarrow> jsnum \<Rightarrow> jsnum" where
  "js_mul (Num a) (Num b) = Num (a * b)"
| "js_mul _ _ = NaN"

fun js_div :: "jsnum \<Rightarrow> jsnum \<Rightarrow> jsnum" where
  "js_div (Num a) (Num b) =
     (if b = 0 then (if a = 0 then NaN else undefined) else Num (a / b))"
| "js_div _ _ = NaN"

text \<open>Comparisons: any comparison with \<open>NaN\<close> is false.\<close>

fun js_lt :: "jsnum \<Rightarrow> jsnum \<Rightarrow> bool" where
  "js_lt (Num a) (Num b) = (a < b)"
| "js_lt _ _ = False"

fun js_le :: "jsnum \<Rightarrow> jsnum \<Rightarrow> bool" where
  "js_le (Num a) (Num b) = (a \<le> b)"
| "js_le _ _ = False"

definition js_gt :: "jsnum \<Rightarrow> jsnum \<Rightarrow> bool" where
  "js_gt a b = js_lt b a"

definition js_ge :: "jsnum \<Rightarrow> jsnum \<Rightarrow> bool" where
  "js_ge a b = js_le b a"

fun isNaN :: "jsnum \<Rightarrow> bool" where
  "isNaN NaN = True"
| "isNaN (Num a) = False"

text \<open>Truthiness of a number: \<open>0\<close> and \<open>NaN\<close> are falsy.\<close>

fun js_truthy :: "jsnum \<Rightarrow> bool" where
  "js_truthy (Num a) = (a \<noteq> 0)"
| "js_truthy NaN = False"

fun Math_abs :: "jsnum \<Rightarrow> jsnum" where
  "Math_abs (Num a) = Num \<bar>a\<bar>"
| "Math_abs NaN = NaN"

fun Math_sqrt :: "jsnum \<Rightarrow> jsnum" where
  "Math_sqrt (Num a) = (if a < 0 then NaN else Num (sqrt a))"
| "Math_sqrt NaN = NaN"

text \<open>\<open>Math.round\<close>: the nearest integer, a tie going up.\<close>

fun Math_round :: "jsnum \<Rightarrow> jsnum" where
  "Math_round (Num a) = Num (of_int \<lfloor>a + 1 / 2\<rfloor>)"
| "Math_round NaN = NaN"

text \<open>
  \<open>Math.pow(base, exponent)\<close>. A \<open>NaN\<close> exponent gives \<open>NaN\<close> whatever the base; a zero
  exponent gives 1 whatever the base. A missing argument is \<open>undefined\<close>, which
  \<open>ToNumber\<close> turns into \<open>NaN\<close>. The other cases are given for a positive base and for a
  zero base with a positive exponent.
\<close>

definition ToNumber_undefined :: jsnum where
  "ToNumber_undefined = NaN"

fun Math_pow :: "jsnum \<Rightarrow> jsnum \<Rightarrow> jsnum" where
  "Math_pow b NaN = NaN"
| "Math_pow b (Num y) =
     (if y = 0 then Num 1
      else case b of
             NaN \<Rightarrow> NaN
           | Num x \<Rightarrow> (if 0 < x then Num (x powr y)
                       else if x = 0 \<and> 0 < y then Num 0
                       else undefined))"

fun js_min2 :: "jsnum \<Rightarrow> jsnum \<Rightarrow> jsnum" where
  "js_min2 (Num a) (Num b) = Num (min a b)"
| "js_min2 _ _ = NaN"

fun js_max2 :: "jsnum \<Rightarrow> jsnum \<Rightarrow> jsnum" where
  "js_max2 (Num a) (Num b) = Num (max a b)"
| "js_max2 _ _ = NaN"

text \<open>
  \<open>Math.min(...xs)\<close> and \<open>Math.max(...xs)\<close> on at least one argument (on none they are
  the infinities; the code calls them on three values or more).
\<close>

fun Math_min :: "jsnum list \<Rightarrow> jsnum" where
  "Math_min [x] = x"
| "Math_min (x # y # ys) = js_min2 x (Math_min (y # ys))"

fun Math_max :: "jsnum list \<Rightarrow> jsnum" where
  "Math_max [x] = x"
| "Math_max (x # y # ys) = js_max2 x (Math_max (y # ys))"

section \<open>Constants and state of the monitor\<close>

definition MAX_SAMPLES :: nat where
  "MAX_SAMPLES = 60 * 5"

definition MIN_SAMPLES_FOR_ANALYSIS :: nat where
  "MIN_SAMPLES_FOR_ANALYSIS = MAX_SAMPLES div 3"

definition MIN_SIGNAL_RANGE :: jsnum where
  "MIN_SIGNAL_RANGE = Num 0.0015"

definition MAX_SIGNAL_STD_DEV_RATIO :: jsnum where
  "MAX_SIGNAL_STD_DEV_RATIO = Num 0.35"

definition MIN_CROSSINGS_FOR_RAW_BPM :: nat where
  "MIN_CROSSINGS_FOR_RAW_BPM = 4"

definition RAW_BPM_VALIDITY_WINDOW_MS :: int where
  "RAW_BPM_VALIDITY_WINDOW_MS = 2000"

definition RAW_BPM_CONSISTENCY_THRESHOLD :: jsnum where
  "RAW_BPM_CONSISTENCY_THRESHOLD = Num 10"

definition MIN_CONSISTENT_RAW_BPMS_FOR_CANDIDATE :: nat where
  "MIN_CONSISTENT_RAW_BPMS_FOR_CANDIDATE = 3"

definition STABLE_BPM_CANDIDATE_BUFFER_SIZE :: nat where
  "STABLE_BPM_CANDIDATE_BUFFER_SIZE = 5"

definition REQUIRED_STABILITY_COUNT :: nat where
  "REQUIRED_STABILITY_COUNT = 3"

definition BPM_STABILITY_TOLERANCE :: jsnum where
  "BPM_STABILITY_TOLERANCE = Num 3"

text \<open>
  A sample \<open>{ value, time }\<close>: the brightness of the frame and \<open>Date.now()\<close>, an
  integer number of milliseconds.
\<close>

record sample =
  sample_value :: jsnum
  sample_time :: int

text \<open>An entry \<open>{ bpm, time, range }\<close> of \<open>recentValidRawBpms\<close>.\<close>

record rawBpmEntry =
  rb_bpm :: jsnum
  rb_time :: int
  rb_range :: jsnum

text \<open>The result \<open>{ average, min, max, range, crossings }\<close> of \<open>analyzeData\<close>.\<close>

record dataStats =
  ds_average :: jsnum
  ds_min :: jsnum
  ds_max :: jsnum
  ds_range :: jsnum
  ds_crossings :: "sample list"

text \<open>The result \<open>{ good, status }\<close> of \<open>analyzeSignalQuality\<close>.\<close>

record signal =
  sig_good :: bool
  sig_status :: string

text \<open>
  The module-level variables that \<open>processFrame\<close> reads and writes. \<open>null\<close> is
  \<open>None\<close>.
\<close>

record monitor =
  SAMPLE_BUFFER :: "sample list"
  recentValidRawBpms :: "rawBpmEntry list"
  stableBpmCandidateBuffer :: "jsnum list"
  currentStableBpmCandidate :: "jsnum option"
  currentStabilityCounter :: nat
  lockedBpm :: "jsnum option"
  lastSignalQualityStatus :: string

text \<open>
  What \<open>processFrame\<close> passes to \<open>setBpmDisplay\<close>: the number \<open>lockedBpm\<close>, the
  string \<open>Math.round(currentStableBpmCandidate) + "?"\<close> (kept as the rounded number), or
  a status string.
\<close>

datatype display = Locked_value jsnum | Candidate_value jsnum | Status string

section \<open>Helpers\<close>

definition calculateStdDev :: "jsnum list \<Rightarrow> jsnum \<Rightarrow> jsnum" where
  "calculateStdDev arr mean =
     (if length arr = 0 then Num 0
      else
        let variance =
              js_div
                (foldl (\<lambda>acc val. js_add acc (Math_pow (js_sub val mean) ToNumber_undefined))
                   (Num 0) arr)
                (Num (real (length arr)))
        in Math_sqrt variance)"

text \<open>The entries that pass \<open>typeof val === 'number' && !isNaN(val)\<close>.\<close>

fun numbers :: "jsnum list \<Rightarrow> real list" where
  "numbers [] = []"
| "numbers (Num a # xs) = a # numbers xs"
| "numbers (NaN # xs) = numbers xs"

definition calculateMedian :: "jsnum list \<Rightarrow> jsnum option" where
  "calculateMedian arr =
     (if length arr = 0 then None
      else
        let sortedArr = sort (numbers arr) in
        if length sortedArr = 0 then None
        else
          let mid = length sortedArr div 2 in
          if length sortedArr mod 2 = 0 then
            (if mid = 0 \<or> length sortedArr < 2
             then (if js_truthy (Num (sortedArr ! 0)) then Some (Num (sortedArr ! 0)) else None)
             else Some (js_div (js_add (Num (sortedArr ! (mid - 1))) (Num (sortedArr ! mid)))
                          (Num 2)))
          else Some (Num (sortedArr ! mid)))"

definition resetMeasurementState :: "bool \<Rightarrow> monitor \<Rightarrow> monitor" where
  "resetMeasurementState clearLocked st =
     st\<lparr> recentValidRawBpms := [],
         stableBpmCandidateBuffer := [],
         currentStableBpmCandidate := None,
         currentStabilityCounter := 0,
         lockedBpm := (if clearLocked then None else lockedBpm st),
         lastSignalQualityStatus := [] \<rparr>"

section \<open>Statistics and crossings\<close>

text \<open>The loop of \<open>getAverageCrossings\<close>, from index 1, with its \<open>previousSample\<close>.\<close>

fun crossings_loop :: "jsnum \<Rightarrow> sample \<Rightarrow> sample list \<Rightarrow> sample list" where
  "crossings_loop average previousSample [] = []"
| "crossings_loop average previousSample (currentSample # rest) =
     (if js_gt (sample_value currentSample) average
          \<and> js_le (sample_value previousSample) average
      then currentSample # crossings_loop average currentSample rest
      else crossings_loop average currentSample rest)"

fun getAverageCrossings :: "sample list \<Rightarrow> jsnum \<Rightarrow> sample list" where
  "getAverageCrossings [] average = []"
| "getAverageCrossings [s] average = []"
| "getAverageCrossings (s # t # rest) average = crossings_loop average s (t # rest)"

text \<open>
  The older variant of the detector, in \<open>src/main.js\<close>: the same loop with the test
  \<open>currentSample.value < average && previousSample.value >= average\<close>.
\<close>

fun crossings_loop_main :: "jsnum \<Rightarrow> sample \<Rightarrow> sample list \<Rightarrow> sample list" where
  "crossings_loop_main average previousSample [] = []"
| "crossings_loop_main average previousSample (currentSample # rest) =
     (if js_lt (sample_value currentSample) average
          \<and> js_ge (sample_value previousSample) average
      then currentSample # crossings_loop_main average currentSample rest
      else crossings_loop_main average currentSample rest)"

fun getAverageCrossings_main :: "sample list \<Rightarrow> jsnum \<Rightarrow> sample list" where
  "getAverageCrossings_main [] average = []"
| "getAverageCrossings_main [s] average = []"
| "getAverageCrossings_main (s # t # rest) average = crossings_loop_main average s (t # rest)"

text \<open>The \<open>forEach\<close> of \<open>analyzeData\<close> that tracks \<open>max\<close> and \<open>min\<close>.\<close>

definition track_max :: "jsnum \<Rightarrow> sample \<Rightarrow> jsnum" where
  "track_max mx s = (if js_gt (sample_value s) mx then sample_value s else mx)"

definition track_min :: "jsnum \<Rightarrow> sample \<Rightarrow> jsnum" where
  "track_min mn s = (if js_lt (sample_value s) mn then sample_value s else mn)"

definition analyzeData :: "sample list \<Rightarrow> dataStats" where
  "analyzeData samples =
     (case samples of
        [] \<Rightarrow> \<lparr> ds_average = Num 0, ds_min = Num 0, ds_max = Num 0, ds_range = Num 0,
                ds_crossings = [] \<rparr>
      | s0 # _ \<Rightarrow>
          let average = js_div (foldl js_add (Num 0) (map sample_value samples))
                          (Num (real (length samples)));
              mx = foldl track_max (sample_value s0) samples;
              mn = foldl track_min (sample_value s0) samples;
              rng = js_sub mx mn;
              crossings = getAverageCrossings samples average
          in \<lparr> ds_average = average, ds_min = mn, ds_max = mx, ds_range = rng,
               ds_crossings = crossings \<rparr>)"

section \<open>The quality gate\<close>

definition analyzeSignalQuality :: "sample list \<Rightarrow> dataStats \<Rightarrow> signal" where
  "analyzeSignalQuality samples stats =
     (if length samples < MIN_SAMPLES_FOR_ANALYSIS then
        \<lparr> sig_good = False, sig_status = ''Analyzing...'' \<rparr>
      else if js_lt (ds_range stats) MIN_SIGNAL_RANGE then
        \<lparr> sig_good = False, sig_status = ''Low Signal (Place finger firmly)'' \<rparr>
      else
        let sampleValues = map sample_value samples;
            stdDev = calculateStdDev sampleValues (ds_average stats)
        in if js_gt (ds_range stats) (Num 0)
              \<and> js_gt (js_div stdDev (ds_range stats)) MAX_SIGNAL_STD_DEV_RATIO then
             \<lparr> sig_good = False, sig_status = ''Noisy Signal (Hold still)'' \<rparr>
           else if length (ds_crossings stats) < MIN_CROSSINGS_FOR_RAW_BPM then
             \<lparr> sig_good = False, sig_status = ''Detecting Pulse...'' \<rparr>
           else \<lparr> sig_good = True, sig_status = ''Good Signal'' \<rparr>)"

section \<open>The raw BPM estimator\<close>

text \<open>The loop of \<open>calculateBpm\<close> that collects \<open>time[i] - time[i-1]\<close>.\<close>

fun timeDifferences :: "sample list \<Rightarrow> int list" where
  "timeDifferences (a # b # rest) = (sample_time b - sample_time a) # timeDifferences (b # rest)"
| "timeDifferences _ = []"

definition calculateBpm :: "sample list \<Rightarrow> jsnum option" where
  "calculateBpm crossingSamples =
     (if length crossingSamples < 2 then None
      else
        let diffs = timeDifferences crossingSamples in
        if length diffs = 0 then None
        else
          let physiologicallyPlausibleIntervals =
                filter (\<lambda>dt. 270 < dt \<and> dt < 2000) diffs
          in if length physiologicallyPlausibleIntervals < 1 then None
             else
               (case calculateMedian
                       (map (\<lambda>dt. Num (of_int dt)) physiologicallyPlausibleIntervals) of
                  None \<Rightarrow> None
                | Some medianInterval \<Rightarrow>
                    if js_le medianInterval (Num 0) \<or> isNaN medianInterval then None
                    else Some (js_div (Num 60000) medianInterval)))"

section \<open>One frame\<close>

text \<open>Lines 296 to 299: the push into \<open>SAMPLE_BUFFER\<close> and the shift when it is too long.\<close>

definition push_sample :: "sample list \<Rightarrow> sample \<Rightarrow> sample list" where
  "push_sample buf s =
     (let b = buf @ [s] in if length b > MAX_SAMPLES then tl b else b)"

text \<open>Lines 341 to 344: the push into \<open>stableBpmCandidateBuffer\<close>.\<close>

definition push_candidate :: "jsnum list \<Rightarrow> jsnum \<Rightarrow> jsnum list" where
  "push_candidate buf c =
     (let b = buf @ [c] in if length b > STABLE_BPM_CANDIDATE_BUFFER_SIZE then tl b else b)"

text \<open>
  Lines 326 to 353: the raw BPM is kept when it is not \<open>null\<close> and lies in [30, 220]; the
  list of recent raw BPMs is then filtered by age, and a candidate median is pushed when
  three or more remain within 10 BPM of each other.
\<close>

definition rawBpmConsistencyFilter ::
  "jsnum option \<Rightarrow> int \<Rightarrow> jsnum \<Rightarrow> monitor \<Rightarrow> monitor" where
  "rawBpmConsistencyFilter rawBpm currentTime rng st =
     (case rawBpm of
        None \<Rightarrow> st
      | Some r \<Rightarrow>
          if js_ge r (Num 30) \<and> js_le r (Num 220) then
            let recent =
                  filter (\<lambda>rb. currentTime - rb_time rb < RAW_BPM_VALIDITY_WINDOW_MS)
                    (recentValidRawBpms st
                       @ [\<lparr> rb_bpm = r, rb_time = currentTime, rb_range = rng \<rparr>]);
                st1 = st\<lparr> recentValidRawBpms := recent \<rparr>
            in if length recent \<ge> MIN_CONSISTENT_RAW_BPMS_FOR_CANDIDATE then
                 let recentBpmsOnly = map rb_bpm recent;
                     minRecent = Math_min recentBpmsOnly;
                     maxRecent = Math_max recentBpmsOnly
                 in if js_le (js_sub maxRecent minRecent) RAW_BPM_CONSISTENCY_THRESHOLD then
                      (case calculateMedian recentBpmsOnly of
                         None \<Rightarrow> st1
                       | Some candidateMedianBpm \<Rightarrow>
                           if js_truthy candidateMedianBpm then
                             st1\<lparr> stableBpmCandidateBuffer :=
                                    push_candidate (stableBpmCandidateBuffer st1)
                                      candidateMedianBpm \<rparr>
                           else st1)
                    else st1
               else st1
          else st)"

text \<open>\<open>Math.round(currentStableBpmCandidate)\<close>; \<open>null\<close> would round to 0.\<close>

definition round_candidate :: "jsnum option \<Rightarrow> jsnum" where
  "round_candidate c = (case c of None \<Rightarrow> Num 0 | Some x \<Rightarrow> Math_round x)"

text \<open>
  Lines 357 to 401: the lock state machine. It returns the new state and the value passed
  to \<open>setBpmDisplay\<close>, if the function is called.
\<close>

definition stabilizer :: "monitor \<Rightarrow> monitor \<times> display option" where
  "stabilizer st =
     (if length (stableBpmCandidateBuffer st) \<ge> REQUIRED_STABILITY_COUNT then
        (case calculateMedian (stableBpmCandidateBuffer st) of
           None \<Rightarrow> (st, None)
         | Some medianOfCandidates \<Rightarrow>
             if js_truthy medianOfCandidates then
               let st1 =
                     (case currentStableBpmCandidate st of
                        None \<Rightarrow>
                          st\<lparr> currentStableBpmCandidate := Some medianOfCandidates,
                              currentStabilityCounter := 1 \<rparr>
                      | Some c \<Rightarrow>
                          if js_le (Math_abs (js_sub medianOfCandidates c))
                               BPM_STABILITY_TOLERANCE
                          then
                            st\<lparr> currentStabilityCounter := currentStabilityCounter st + 1,
                                currentStableBpmCandidate :=
                                  Some (js_add (js_mul c (Num 0.7))
                                          (js_mul medianOfCandidates (Num 0.3))) \<rparr>
                          else
                            st\<lparr> currentStableBpmCandidate := Some medianOfCandidates,
                                currentStabilityCounter := 1 \<rparr>)
               in if currentStabilityCounter st1 \<ge> REQUIRED_STABILITY_COUNT then
                    let l = round_candidate (currentStableBpmCandidate st1)
                    in (st1\<lparr> lockedBpm := Some l \<rparr>, Some (Locked_value l))
                  else
                    (case lockedBpm st1 of
                       Some l \<Rightarrow> (st1, Some (Locked_value l))
                     | None \<Rightarrow>
                         (case currentStableBpmCandidate st1 of
                            Some c \<Rightarrow> (st1, Some (Candidate_value (Math_round c)))
                          | None \<Rightarrow> (st1, Some (Status ''Calculating...''))))
             else (st, None))
      else
        (case lockedBpm st of
           Some l \<Rightarrow> (st, Some (Locked_value l))
         | None \<Rightarrow> (st, Some (Status ''Detecting...''))))"

text \<open>
  \<open>processFrame\<close>, from line 293 on, for a frame of brightness \<open>currentBrightness\<close> taken
  at \<open>currentTime\<close> (the test of line 289 returns before anything is read or written; the
  drawing of the graph is left out). It returns the new state and the value passed to
  \<open>setBpmDisplay\<close>, \<open>None\<close> when the function is not called.
\<close>

definition processFrame :: "jsnum \<Rightarrow> int \<Rightarrow> monitor \<Rightarrow> monitor \<times> display option" where
  "processFrame currentBrightness currentTime st =
     (let buf = push_sample (SAMPLE_BUFFER st)
                  \<lparr> sample_value = currentBrightness, sample_time = currentTime \<rparr>;
          st0 = st\<lparr> SAMPLE_BUFFER := buf \<rparr>;
          stats = analyzeData buf;
          sg = analyzeSignalQuality buf stats
      in if \<not> sig_good sg then
           let shown = (if sig_status sg \<noteq> lastSignalQualityStatus st0
                        then Some (Status (sig_status sg)) else None);
               st1 = st0\<lparr> lastSignalQualityStatus := sig_status sg \<rparr>
           in (case lockedBpm st1 of
                 Some l \<Rightarrow> (st1, shown)
               | None \<Rightarrow> (resetMeasurementState False st1, shown))
         else
           let st1 = st0\<lparr> lastSignalQualityStatus := sig_status sg \<rparr>;
               rawBpm = calculateBpm (ds_crossings stats)
           in stabilizer (rawBpmConsistencyFilter rawBpm currentTime (ds_range stats) st1))"

text \<open>The state after \<open>resetBuffer()\<close> and \<open>resetMeasurementState(true)\<close>, as \<open>startMonitoring\<close> leaves it.\<close>

definition initial_monitor :: monitor where
  "initial_monitor =
     \<lparr> SAMPLE_BUFFER = [], recentValidRawBpms = [], stableBpmCandidateBuffer = [],
       currentStableBpmCandidate = None, currentStabilityCounter = 0, lockedBpm = None,
       lastSignalQualityStatus = [] \<rparr>"

section \<open>Notions of the specification\<close>

text \<open>
  The median as the specification words it: the middle element after sorting for an odd
  length, the mean of the two middle elements for an even length.
\<close>

definition median_spec :: "real list \<Rightarrow> real" where
  "median_spec xs =
     (let s = sort xs; n = length s
      in if even n then (s ! (n div 2 - 1) + s ! (n div 2)) / 2 else s ! (n div 2))"

text \<open>
  The standard deviation of a list of values, as the specification means it for the noise
  rule: the square root of the mean squared deviation from the mean.
\<close>

definition stdDev_spec :: "real list \<Rightarrow> real" where
  "stdDev_spec xs =
     (let mean = sum_list xs / real (length xs)
      in sqrt (sum_list (map (\<lambda>x. (x - mean)\<^sup>2) xs) / real (length xs)))"


text \<open>
  Index \<open>i\<close> is an upward crossing of the average: the sample there is strictly above it
  and the sample before is at or below it. The downward crossing is that of the older
  variant.
\<close>

definition upward_crossing :: "jsnum \<Rightarrow> sample list \<Rightarrow> nat \<Rightarrow> bool" where
  "upward_crossing average samples i =
     (js_gt (sample_value (samples ! i)) average
      \<and> js_le (sample_value (samples ! (i - 1))) average)"

definition downward_crossing :: "jsnum \<Rightarrow> sample list \<Rightarrow> nat \<Rightarrow> bool" where
  "downward_crossing average samples i =
     (js_lt (sample_value (samples ! i)) average
      \<and> js_ge (sample_value (samples ! (i - 1))) average)"

text \<open>The test \<open>rawBpm >= 30 && rawBpm <= 220\<close> of \<open>processFrame\<close>.\<close>

definition bpm_in_range :: "jsnum \<Rightarrow> bool" where
  "bpm_in_range r = (js_ge r (Num 30) \<and> js_le r (Num 220))"

text \<open>A number that is a whole number.\<close>

definition integer_bpm :: "jsnum \<Rightarrow> bool" where
  "integer_bpm v = (case v of Num x \<Rightarrow> x = of_int \<lfloor>x\<rfloor> | NaN \<Rightarrow> False)"

text \<open>
  What holds of the state of the monitor in every run: the raw BPMs kept, the candidate
  medians and the stable candidate are numbers in [30, 220], and a locked BPM is a whole
  number in that range.
\<close>

definition monitor_inv :: "monitor \<Rightarrow> bool" where
  "monitor_inv st =
     (list_all (\<lambda>rb. bpm_in_range (rb_bpm rb)) (recentValidRawBpms st)
      \<and> list_all bpm_in_range (stableBpmCandidateBuffer st)
      \<and> (case currentStableBpmCandidate st of None \<Rightarrow> True | Some c \<Rightarrow> bpm_in_range c)
      \<and> (case lockedBpm st of None \<Rightarrow> True | Some l \<Rightarrow> bpm_in_range l \<and> integer_bpm l))"

text \<open>The values that the specification allows on the display after a frame.\<close>

definition status_strings :: "string list" where
  "status_strings =
     [''Analyzing...'', ''Low Signal (Place finger firmly)'', ''Noisy Signal (Hold still)'',
      ''Detecting Pulse...'', ''Calculating...'', ''Detecting...'']"

definition allowed_display :: "display \<Rightarrow> bool" where
  "allowed_display d =
     (case d of
        Locked_value l \<Rightarrow> integer_bpm l
      | Candidate_value c \<Rightarrow> integer_bpm c
      | Status s \<Rightarrow> s \<in> set status_strings)"

text \<open>
  The states of a run: \<open>startMonitoring\<close> clears the buffer and the measurement state,
  then every frame is one call of \<open>processFrame\<close>; \<open>stopMonitoring\<close> calls
  \<open>resetMeasurementState(true)\<close> and leaves the buffer.
\<close>

inductive reachable :: "monitor \<Rightarrow> bool" where
  start: "reachable initial_monitor"
| frame: "reachable st \<Longrightarrow> reachable (fst (processFrame v t st))"
| stop: "reachable st \<Longrightarrow> reachable (resetMeasurementState True st)"

text \<open>
  A run over a list of frames \<open>(brightness, time)\<close>, with the value on the display: the
  last one passed to \<open>setBpmDisplay\<close>. \<open>startMonitoring\<close> shows \<open>Starting...\<close>.
\<close>

fun run :: "(jsnum \<times> int) list \<Rightarrow> monitor \<times> display \<Rightarrow> monitor \<times> display" where
  "run [] sd = sd"
| "run ((v, t) # frames) (st, d) =
     run frames (fst (processFrame v t st),
                 case snd (processFrame v t st) of None \<Rightarrow> d | Some d' \<Rightarrow> d')"

definition monitor_after :: "(jsnum \<times> int) list \<Rightarrow> monitor" where
  "monitor_after frames = fst (run frames (initial_monitor, Status ''Starting...''))"

section \<open>Concrete buffers and states\<close>

text \<open>Samples of strictly increasing brightness, 17 ms apart.\<close>

definition ramp :: "nat \<Rightarrow> sample list" where
  "ramp n = map (\<lambda>i. \<lparr> sample_value = Num (real i / 1000), sample_time = 17 * int i \<rparr>) [0..<n]"

text \<open>Samples of constant brightness, and a monitor that locked 72 BPM before the signal went flat.\<close>

definition flat_samples :: "nat \<Rightarrow> sample list" where
  "flat_samples n = map (\<lambda>i. \<lparr> sample_value = Num 1, sample_time = 100 * int i \<rparr>) [0..<n]"

definition locked_monitor :: monitor where
  "locked_monitor =
     \<lparr> SAMPLE_BUFFER = flat_samples 300,
       recentValidRawBpms = [\<lparr> rb_bpm = Num 72, rb_time = 100, rb_range = Num (1 / 2) \<rparr>],
       stableBpmCandidateBuffer = [Num 72, Num 72, Num 72],
       currentStableBpmCandidate = Some (Num 72),
       currentStabilityCounter = 3,
       lockedBpm = Some (Num 72),
       lastSignalQualityStatus = ''Low Signal (Place finger firmly)'' \<rparr>"


text \<open>
  A pulse train sampled every 100 ms: a peak every 800 ms, every third peak of full
  brightness and the others of brightness 0.05, over a dark background. The first 100
  samples have twelve upward crossings 800 ms apart (75 BPM). A bright sample 2100 ms
  later lifts the average above the small peaks: five crossings remain, 2400 ms apart or
  more, and no interval is plausible.
\<close>

definition pulse :: "nat \<Rightarrow> real" where
  "pulse i = (if i mod 8 = 4 then (if (i div 8) mod 3 = 0 then 1 else 1 / 20) else 0)"

definition pulse_sample :: "nat \<Rightarrow> sample" where
  "pulse_sample i = \<lparr> sample_value = Num (pulse i), sample_time = 100 * int i \<rparr>"

definition pulse_samples :: "nat \<Rightarrow> sample list" where
  "pulse_samples n = map pulse_sample [0..<n]"

definition late_sample :: sample where
  "late_sample = \<lparr> sample_value = Num 1, sample_time = 12000 \<rparr>"

definition pulse_frames :: "nat \<Rightarrow> (jsnum \<times> int) list" where
  "pulse_frames n = map (\<lambda>i. (Num (pulse i), 100 * int i)) [0..<n]"

text \<open>The state after the first 100 frames of the pulse train.\<close>

definition monitor_after_100 :: monitor where
  "monitor_after_100 =
     \<lparr> SAMPLE_BUFFER = pulse_samples 100,
       recentValidRawBpms = [\<lparr> rb_bpm = Num 75, rb_time = 9900, rb_range = Num 1 \<rparr>],
       stableBpmCandidateBuffer = [],
       currentStableBpmCandidate = None,
       currentStabilityCounter = 0,
       lockedBpm = None,
       lastSignalQualityStatus = ''Good Signal'' \<rparr>"

text \<open>
  A monitor about to lock, one frame before the pulse train has 100 samples, and the state
  the frame leaves.
\<close>

definition forming_monitor :: monitor where
  "forming_monitor =
     \<lparr> SAMPLE_BUFFER = pulse_samples 99,
       recentValidRawBpms =
         [\<lparr> rb_bpm = Num 74, rb_time = 7900, rb_range = Num 1 \<rparr>,
          \<lparr> rb_bpm = Num 76, rb_time = 9700, rb_range = Num 1 \<rparr>,
          \<lparr> rb_bpm = Num 74, rb_time = 9800, rb_range = Num 1 \<rparr>],
       stableBpmCandidateBuffer = [Num 80, Num 74, Num 75, Num 76, Num 75],
       currentStableBpmCandidate = Some (Num 75),
       currentStabilityCounter = 2,
       lockedBpm = None,
       lastSignalQualityStatus = ''Good Signal'' \<rparr>"


text \<open>A hundred samples alternating between brightness 0.25 and 0.75.\<close>

definition noisy_samples :: "sample list" where
  "noisy_samples =
     map (\<lambda>i. \<lparr> sample_value = Num (if even i then 1 / 4 else 3 / 4), sample_time = 17 * int i \<rparr>)
       [0..<100]"

section \<open>Facts about the arithmetic\<close>

lemma js_lt_NaN_right [simp]: "js_lt x NaN = False"
  by (cases x) simp_all

lemma js_le_NaN_right [simp]: "js_le x NaN = False"
  by (cases x) simp_all

lemma js_add_NaN_right [simp]: "js_add x NaN = NaN"
  by (cases x) simp_all

lemma js_sub_NaN_right [simp]: "js_sub x NaN = NaN"
  by (cases x) simp_all

lemma Math_pow_no_exponent [simp]: "Math_pow b ToNumber_undefined = NaN"
  by (simp add: ToNumber_undefined_def)

lemma no_cross: "\<not> (js_gt x a \<and> js_le x a)"
  by (cases x; cases a) (auto simp: js_gt_def)

section \<open>The standard deviation and the noise rule\<close>

lemma foldl_NaN_absorbs: "foldl (\<lambda>acc val. NaN) NaN arr = NaN"
  by (induction arr) simp_all

lemma calculateStdDev_nonempty: "arr \<noteq> [] \<Longrightarrow> calculateStdDev arr mean = NaN"
  by (cases arr) (simp_all add: calculateStdDev_def foldl_NaN_absorbs)

lemma gate_not_noisy:
  "sig_status (analyzeSignalQuality samples stats) \<noteq> ''Noisy Signal (Hold still)''"
proof (cases "samples = []")
  case True
  then show ?thesis
    by (simp add: analyzeSignalQuality_def MIN_SAMPLES_FOR_ANALYSIS_def MAX_SAMPLES_def)
next
  case False
  then have "calculateStdDev (map sample_value samples) (ds_average stats) = NaN"
    by (simp add: calculateStdDev_nonempty)
  then show ?thesis
    by (simp add: analyzeSignalQuality_def js_gt_def MAX_SIGNAL_STD_DEV_RATIO_def)
qed

text \<open>
  Claim C10. On every non-empty list \<open>calculateStdDev\<close> returns \<open>NaN\<close>:
  \<open>Math.pow\<close> is called with one argument, so every term added to the accumulator is
  \<open>NaN\<close>. The comparison of the noise rule is then false on every input, and the
  quality gate never answers \<open>Noisy Signal (Hold still)\<close>.
\<close>

theorem stddev_is_NaN_and_gate_never_noisy:
  "(arr \<noteq> [] \<longrightarrow> calculateStdDev arr mean = NaN)
   \<and> sig_status (analyzeSignalQuality samples stats) \<noteq> ''Noisy Signal (Hold still)''"
  using calculateStdDev_nonempty gate_not_noisy by blast

theorem stddev_is_NaN_and_gate_never_noisy_witness:
  "[Num (1/4), Num (3/4)] \<noteq> [] \<and> calculateStdDev [Num (1/4), Num (3/4)] (Num (1/2)) = NaN
   \<and> sig_status (analyzeSignalQuality [] (analyzeData [])) \<noteq> ''Noisy Signal (Hold still)''"
  using stddev_is_NaN_and_gate_never_noisy [of "[Num (1/4), Num (3/4)]" "Num (1/2)" "[]" "analyzeData []"]
  by simp

lemma gate_status:
  "sig_status (analyzeSignalQuality samples stats)
     \<in> {''Analyzing...'', ''Low Signal (Place finger firmly)'', ''Detecting Pulse...'',
        ''Good Signal''}"
  using gate_not_noisy [of samples stats]
  by (simp add: analyzeSignalQuality_def Let_def split: if_splits)

lemma gate_good_status:
  "sig_good (analyzeSignalQuality samples stats)
   \<longleftrightarrow> sig_status (analyzeSignalQuality samples stats) = ''Good Signal''"
  by (simp add: analyzeSignalQuality_def Let_def)

lemma gate_good_intro:
  assumes "\<not> length samples < MIN_SAMPLES_FOR_ANALYSIS"
    and "\<not> js_lt (ds_range stats) MIN_SIGNAL_RANGE"
    and "\<not> length (ds_crossings stats) < MIN_CROSSINGS_FOR_RAW_BPM"
  shows "analyzeSignalQuality samples stats = \<lparr> sig_good = True, sig_status = ''Good Signal'' \<rparr>"
proof -
  from assms(1) have "samples \<noteq> []"
    by (auto simp: MIN_SAMPLES_FOR_ANALYSIS_def MAX_SAMPLES_def)
  then have "calculateStdDev (map sample_value samples) (ds_average stats) = NaN"
    by (simp add: calculateStdDev_nonempty)
  with assms show ?thesis
    by (simp add: analyzeSignalQuality_def js_gt_def MAX_SIGNAL_STD_DEV_RATIO_def)
qed

section \<open>Statistics of a buffer\<close>

lemma analyzeData_nonempty:
  "samples \<noteq> [] \<Longrightarrow>
   analyzeData samples =
     \<lparr> ds_average = js_div (foldl js_add (Num 0) (map sample_value samples))
                      (Num (real (length samples))),
       ds_min = foldl track_min (sample_value (hd samples)) samples,
       ds_max = foldl track_max (sample_value (hd samples)) samples,
       ds_range = js_sub (foldl track_max (sample_value (hd samples)) samples)
                    (foldl track_min (sample_value (hd samples)) samples),
       ds_crossings =
         getAverageCrossings samples
           (js_div (foldl js_add (Num 0) (map sample_value samples))
              (Num (real (length samples)))) \<rparr>"
  by (cases samples) (simp_all add: analyzeData_def Let_def)

lemma in_set_tl: "x \<in> set (tl xs) \<Longrightarrow> x \<in> set xs"
  by (cases xs) auto

lemma constant_max: "\<forall>s\<in>set buf. sample_value s = Num c \<Longrightarrow> foldl track_max (Num c) buf = Num c"
  by (induction buf) (simp_all add: track_max_def js_gt_def)

lemma constant_min: "\<forall>s\<in>set buf. sample_value s = Num c \<Longrightarrow> foldl track_min (Num c) buf = Num c"
  by (induction buf) (simp_all add: track_min_def)

lemma constant_loop:
  "sample_value p = Num c \<Longrightarrow> \<forall>s\<in>set rest. sample_value s = Num c \<Longrightarrow>
   crossings_loop average p rest = []"
proof (induction rest arbitrary: p)
  case Nil
  show ?case by simp
next
  case (Cons s rest)
  from Cons no_cross [of "Num c" average] show ?case by simp
qed

lemma constant_buffer:
  assumes "buf \<noteq> []" and "\<forall>s\<in>set buf. sample_value s = Num c"
  shows "ds_range (analyzeData buf) = Num 0" and "ds_crossings (analyzeData buf) = []"
proof -
  from assms have hd: "sample_value (hd buf) = Num c" by (cases buf) auto
  show "ds_range (analyzeData buf) = Num 0"
    using assms hd by (simp add: analyzeData_nonempty constant_max constant_min)
  have "getAverageCrossings buf average = []" for average
  proof (cases "(buf, average)" rule: getAverageCrossings.cases)
    case (1 a)
    then show ?thesis by simp
  next
    case (2 s a)
    then show ?thesis by simp
  next
    case (3 s t rest a)
    with assms(2) have "sample_value s = Num c" "\<forall>x\<in>set (t # rest). sample_value x = Num c"
      by simp_all
    from constant_loop [OF this] 3 show ?thesis by (simp del: crossings_loop.simps)
  qed
  then show "ds_crossings (analyzeData buf) = []"
    using assms(1) by (simp add: analyzeData_nonempty)
qed

lemma constant_buffer_low_signal:
  assumes "\<not> length buf < MIN_SAMPLES_FOR_ANALYSIS" and "\<forall>s\<in>set buf. sample_value s = Num c"
  shows "analyzeSignalQuality buf (analyzeData buf)
         = \<lparr> sig_good = False, sig_status = ''Low Signal (Place finger firmly)'' \<rparr>"
proof -
  from assms(1) have "buf \<noteq> []" by (auto simp: MIN_SAMPLES_FOR_ANALYSIS_def MAX_SAMPLES_def)
  from constant_buffer(1) [OF this assms(2)] assms(1) show ?thesis
    by (simp add: analyzeSignalQuality_def MIN_SIGNAL_RANGE_def)
qed

section \<open>The sample buffer\<close>

lemma push_sample_full: "length buf = MAX_SAMPLES \<Longrightarrow> push_sample buf s = tl buf @ [s]"
  by (cases buf) (simp_all add: push_sample_def Let_def MAX_SAMPLES_def)

lemma push_sample_not_full: "length buf < MAX_SAMPLES \<Longrightarrow> push_sample buf s = buf @ [s]"
  by (simp add: push_sample_def Let_def)

lemma push_sample_drop:
  "length buf \<le> MAX_SAMPLES \<Longrightarrow>
   push_sample buf s = drop (length (buf @ [s]) - MAX_SAMPLES) (buf @ [s])"
proof (cases "length buf = MAX_SAMPLES")
  case True
  then have "buf \<noteq> []" by (auto simp: MAX_SAMPLES_def)
  then have "tl buf @ [s] = drop 1 (buf @ [s])" by (cases buf) simp_all
  with True show ?thesis by (simp add: push_sample_full)
next
  case False
  assume "length buf \<le> MAX_SAMPLES"
  with False have "length buf < MAX_SAMPLES" by simp
  then show ?thesis by (simp add: push_sample_not_full)
qed

lemma pushes_are_last_samples:
  "foldl push_sample [] xs = drop (length xs - MAX_SAMPLES) xs"
proof (induction xs rule: rev_induct)
  case Nil
  show ?case by simp
next
  case (snoc x xs)
  let ?b = "drop (length xs - MAX_SAMPLES) xs"
  have len: "length ?b \<le> MAX_SAMPLES" by simp
  have "foldl push_sample [] (xs @ [x]) = push_sample ?b x" using snoc by simp
  also have "\<dots> = drop (length (?b @ [x]) - MAX_SAMPLES) (?b @ [x])"
    using len by (rule push_sample_drop)
  also have "\<dots> = drop (length (xs @ [x]) - MAX_SAMPLES) (xs @ [x])"
  proof (cases "length xs \<le> MAX_SAMPLES")
    case True
    then show ?thesis by simp
  next
    case False
    then have "Suc (length xs - MAX_SAMPLES) = Suc (length xs) - MAX_SAMPLES" by arith
    with False show ?thesis by simp
  qed
  finally show ?case .
qed

text \<open>What the stages of a frame leave untouched, and the two paths of \<open>processFrame\<close>.\<close>

lemma rawBpmConsistencyFilter_frame:
  "SAMPLE_BUFFER (rawBpmConsistencyFilter rawBpm t rng st) = SAMPLE_BUFFER st"
  "currentStableBpmCandidate (rawBpmConsistencyFilter rawBpm t rng st) = currentStableBpmCandidate st"
  "currentStabilityCounter (rawBpmConsistencyFilter rawBpm t rng st) = currentStabilityCounter st"
  "lockedBpm (rawBpmConsistencyFilter rawBpm t rng st) = lockedBpm st"
  "lastSignalQualityStatus (rawBpmConsistencyFilter rawBpm t rng st) = lastSignalQualityStatus st"
  by (simp_all add: rawBpmConsistencyFilter_def Let_def split: option.splits)

lemma stabilizer_frame:
  "SAMPLE_BUFFER (fst (stabilizer st)) = SAMPLE_BUFFER st"
  "recentValidRawBpms (fst (stabilizer st)) = recentValidRawBpms st"
  "stableBpmCandidateBuffer (fst (stabilizer st)) = stableBpmCandidateBuffer st"
  "lastSignalQualityStatus (fst (stabilizer st)) = lastSignalQualityStatus st"
  by (simp_all add: stabilizer_def Let_def split: option.splits)

lemma processFrame_SAMPLE_BUFFER:
  "SAMPLE_BUFFER (fst (processFrame v t st))
   = push_sample (SAMPLE_BUFFER st) \<lparr> sample_value = v, sample_time = t \<rparr>"
  by (simp add: processFrame_def Let_def stabilizer_frame rawBpmConsistencyFilter_frame
        resetMeasurementState_def split: option.splits)

lemma processFrame_not_good:
  assumes "\<not> sig_good (analyzeSignalQuality
                (push_sample (SAMPLE_BUFFER st) \<lparr> sample_value = v, sample_time = t \<rparr>)
                (analyzeData (push_sample (SAMPLE_BUFFER st) \<lparr> sample_value = v, sample_time = t \<rparr>)))"
  shows "processFrame v t st =
     (let buf = push_sample (SAMPLE_BUFFER st) \<lparr> sample_value = v, sample_time = t \<rparr>;
          sg = analyzeSignalQuality buf (analyzeData buf);
          st1 = st\<lparr> SAMPLE_BUFFER := buf, lastSignalQualityStatus := sig_status sg \<rparr>
      in (if lockedBpm st = None then resetMeasurementState False st1 else st1,
          if sig_status sg \<noteq> lastSignalQualityStatus st then Some (Status (sig_status sg))
          else None))"
  using assms by (simp add: processFrame_def Let_def split: option.splits)

lemma processFrame_good:
  assumes "sig_good (analyzeSignalQuality
                (push_sample (SAMPLE_BUFFER st) \<lparr> sample_value = v, sample_time = t \<rparr>)
                (analyzeData (push_sample (SAMPLE_BUFFER st) \<lparr> sample_value = v, sample_time = t \<rparr>)))"
  shows "processFrame v t st =
     (let buf = push_sample (SAMPLE_BUFFER st) \<lparr> sample_value = v, sample_time = t \<rparr>;
          stats = analyzeData buf;
          sg = analyzeSignalQuality buf stats
      in stabilizer
           (rawBpmConsistencyFilter (calculateBpm (ds_crossings stats)) t (ds_range stats)
              (st\<lparr> SAMPLE_BUFFER := buf, lastSignalQualityStatus := sig_status sg \<rparr>)))"
  using assms by (simp add: processFrame_def Let_def)

text \<open>
  Claim C8. Whatever is pushed, the sample buffer never holds more than \<open>MAX_SAMPLES\<close>
  (300) samples; a push onto a full buffer drops the oldest sample and no other, a push
  onto a shorter buffer drops none; after any sequence of pushes the buffer holds the
  most recent 300 samples in the order pushed, so that after 301 pushes its length is 300
  and its first sample is the second one pushed. Every frame pushes exactly so.
\<close>

theorem sample_buffer_bounded_fifo:
  "length (foldl push_sample [] xs) \<le> MAX_SAMPLES
   \<and> foldl push_sample [] xs = drop (length xs - MAX_SAMPLES) xs
   \<and> (length buf = MAX_SAMPLES \<longrightarrow> push_sample buf s = tl buf @ [s])
   \<and> (length buf < MAX_SAMPLES \<longrightarrow> push_sample buf s = buf @ [s])
   \<and> (length xs = MAX_SAMPLES + 1 \<longrightarrow>
        length (foldl push_sample [] xs) = 300 \<and> hd (foldl push_sample [] xs) = xs ! 1)
   \<and> SAMPLE_BUFFER (fst (processFrame v t st))
       = push_sample (SAMPLE_BUFFER st) \<lparr> sample_value = v, sample_time = t \<rparr>"
proof -
  have "length xs = MAX_SAMPLES + 1 \<Longrightarrow> hd (drop (length xs - MAX_SAMPLES) xs) = xs ! 1"
    by (simp add: hd_drop_conv_nth MAX_SAMPLES_def)
  moreover have "length xs = MAX_SAMPLES + 1 \<Longrightarrow> length (drop (length xs - MAX_SAMPLES) xs) = 300"
    by (simp add: MAX_SAMPLES_def)
  ultimately show ?thesis
    by (simp add: pushes_are_last_samples push_sample_full push_sample_not_full
          processFrame_SAMPLE_BUFFER)
qed

theorem sample_buffer_bounded_fifo_witness:
  "length (ramp 301) = MAX_SAMPLES + 1
   \<and> length (foldl push_sample [] (ramp 301)) = 300
   \<and> hd (foldl push_sample [] (ramp 301)) = ramp 301 ! 1
   \<and> length (ramp 300) = MAX_SAMPLES
   \<and> push_sample (ramp 300) \<lparr> sample_value = Num 1, sample_time = 5100 \<rparr>
       = tl (ramp 300) @ [\<lparr> sample_value = Num 1, sample_time = 5100 \<rparr>]
   \<and> length (ramp 2) < MAX_SAMPLES
   \<and> push_sample (ramp 2) \<lparr> sample_value = Num 1, sample_time = 34 \<rparr>
       = ramp 2 @ [\<lparr> sample_value = Num 1, sample_time = 34 \<rparr>]"
  using sample_buffer_bounded_fifo [of "ramp 301" "ramp 300" "\<lparr> sample_value = Num 1, sample_time = 5100 \<rparr>"]
        sample_buffer_bounded_fifo [of "ramp 301" "ramp 2" "\<lparr> sample_value = Num 1, sample_time = 34 \<rparr>"]
  by (simp add: ramp_def MAX_SAMPLES_def)

section \<open>The crossing detector\<close>

lemma upt_from_1: "[1..<Suc (Suc n)] = 1 # map Suc [1..<Suc n]"
proof -
  have "[1..<Suc (Suc n)] = 1 # [Suc 1..<Suc (Suc n)]"
    by (simp add: upt_conv_Cons)
  also have "[Suc 1..<Suc (Suc n)] = map Suc [1..<Suc n]"
    by (simp only: map_Suc_upt)
  finally show ?thesis .
qed

lemma crossings_loop_indices:
  "crossings_loop average p rest =
     map (\<lambda>i. (p # rest) ! i)
       (filter (upward_crossing average (p # rest)) [1..<Suc (length rest)])"
proof (induction rest arbitrary: p)
  case Nil
  show ?case by simp
next
  case (Cons c rest)
  let ?L = "[1..<Suc (length rest)]"
  have shift: "filter (upward_crossing average (p # c # rest) \<circ> Suc) ?L
               = filter (upward_crossing average (c # rest)) ?L"
    by (rule filter_cong) (auto simp: upward_crossing_def nth_Cons split: nat.splits)
  have "map (\<lambda>i. (p # c # rest) ! i)
          (filter (upward_crossing average (p # c # rest)) [1..<Suc (length (c # rest))])
        = (if upward_crossing average (p # c # rest) 1 then [c] else [])
          @ map (\<lambda>i. (c # rest) ! i) (filter (upward_crossing average (c # rest)) ?L)"
    by (simp only: length_Cons upt_from_1 filter.simps filter_map shift)
       (simp add: comp_def)
  also have "upward_crossing average (p # c # rest) 1
             = (js_gt (sample_value c) average \<and> js_le (sample_value p) average)"
    by (simp add: upward_crossing_def)
  finally show ?case using Cons.IH [of c] by simp
qed

text \<open>
  Claim C5. Scanning the samples in order, \<open>getAverageCrossings\<close> records exactly the
  samples, from the second on, whose value is strictly greater than the average while the
  value of the sample just before is less than or equal to it.
\<close>

theorem crossings_are_upward:
  "getAverageCrossings samples average =
     map (\<lambda>i. samples ! i) (filter (upward_crossing average samples) [1..<length samples])"
proof (cases "(samples, average)" rule: getAverageCrossings.cases)
  case (1 a)
  then show ?thesis by simp
next
  case (2 s a)
  then show ?thesis by simp
next
  case (3 s t' rest a)
  then have eq: "samples = s # t' # rest" "average = a" by simp_all
  show ?thesis
    unfolding eq getAverageCrossings.simps crossings_loop_indices length_Cons ..
qed

text \<open>
  The older variant in \<open>src/main.js\<close> records the downward crossings instead, and the two
  differ already on three samples.
\<close>

lemma crossings_loop_main_indices:
  "crossings_loop_main average p rest =
     map (\<lambda>i. (p # rest) ! i)
       (filter (downward_crossing average (p # rest)) [1..<Suc (length rest)])"
proof (induction rest arbitrary: p)
  case Nil
  show ?case by simp
next
  case (Cons c rest)
  let ?L = "[1..<Suc (length rest)]"
  have shift: "filter (downward_crossing average (p # c # rest) \<circ> Suc) ?L
               = filter (downward_crossing average (c # rest)) ?L"
    by (rule filter_cong) (auto simp: downward_crossing_def nth_Cons split: nat.splits)
  have "map (\<lambda>i. (p # c # rest) ! i)
          (filter (downward_crossing average (p # c # rest)) [1..<Suc (length (c # rest))])
        = (if downward_crossing average (p # c # rest) 1 then [c] else [])
          @ map (\<lambda>i. (c # rest) ! i) (filter (downward_crossing average (c # rest)) ?L)"
    by (simp only: length_Cons upt_from_1 filter.simps filter_map shift)
       (simp add: comp_def)
  also have "downward_crossing average (p # c # rest) 1
             = (js_lt (sample_value c) average \<and> js_ge (sample_value p) average)"
    by (simp add: downward_crossing_def)
  finally show ?case using Cons.IH [of c] by simp
qed

lemma getAverageCrossings_main_indices:
  "getAverageCrossings_main samples average =
     map (\<lambda>i. samples ! i) (filter (downward_crossing average samples) [1..<length samples])"
proof (cases "(samples, average)" rule: getAverageCrossings_main.cases)
  case (1 a)
  then show ?thesis by simp
next
  case (2 s a)
  then show ?thesis by simp
next
  case (3 s t' rest a)
  then have eq: "samples = s # t' # rest" "average = a" by simp_all
  show ?thesis
    unfolding eq getAverageCrossings_main.simps crossings_loop_main_indices length_Cons ..
qed

lemma variants_disagree:
  "getAverageCrossings
     [\<lparr> sample_value = Num 0, sample_time = 0 \<rparr>, \<lparr> sample_value = Num 1, sample_time = 17 \<rparr>,
      \<lparr> sample_value = Num 0, sample_time = 34 \<rparr>] (Num (1 / 3))
   = [\<lparr> sample_value = Num 1, sample_time = 17 \<rparr>]"
  "getAverageCrossings_main
     [\<lparr> sample_value = Num 0, sample_time = 0 \<rparr>, \<lparr> sample_value = Num 1, sample_time = 17 \<rparr>,
      \<lparr> sample_value = Num 0, sample_time = 34 \<rparr>] (Num (1 / 3))
   = [\<lparr> sample_value = Num 0, sample_time = 34 \<rparr>]"
  by (simp_all add: js_gt_def js_ge_def)

section \<open>The quality gate\<close>

lemma flat_facts:
  "length (flat_samples n) = n"
  "\<forall>s\<in>set (flat_samples n). sample_value s = Num 1"
  by (simp_all add: flat_samples_def)

lemma flat_push:
  "push_sample (flat_samples 300) \<lparr> sample_value = Num 1, sample_time = 30000 \<rparr>
   = tl (flat_samples 300) @ [\<lparr> sample_value = Num 1, sample_time = 30000 \<rparr>]"
  by (simp add: push_sample_full flat_facts MAX_SAMPLES_def)

lemma flat_tick_low:
  "analyzeSignalQuality
     (push_sample (flat_samples 300) \<lparr> sample_value = Num 1, sample_time = 30000 \<rparr>)
     (analyzeData (push_sample (flat_samples 300) \<lparr> sample_value = Num 1, sample_time = 30000 \<rparr>))
   = \<lparr> sig_good = False, sig_status = ''Low Signal (Place finger firmly)'' \<rparr>"
proof (rule constant_buffer_low_signal)
  show "\<not> length (push_sample (flat_samples 300) \<lparr> sample_value = Num 1, sample_time = 30000 \<rparr>)
          < MIN_SAMPLES_FOR_ANALYSIS"
    unfolding flat_push
    by (simp add: flat_facts MIN_SAMPLES_FOR_ANALYSIS_def MAX_SAMPLES_def)
  show "\<forall>s\<in>set (push_sample (flat_samples 300) \<lparr> sample_value = Num 1, sample_time = 30000 \<rparr>).
          sample_value s = Num 1"
    unfolding flat_push using flat_facts(2) [of 300]
    by (auto dest: in_set_tl)
qed



text \<open>
  Claim C7. On a frame whose verdict is not good \<open>processFrame\<close> returns before the rate
  is estimated: the only value it may display is the status of the verdict; with a locked
  BPM the state changes in the sample buffer and the last status only, so the recent raw
  BPMs, the candidate medians, the stable candidate, the counter and the lock are as
  before; with no locked BPM the partial reset clears the recent raw BPMs, the candidate
  medians, the stable candidate and the counter, and the lock stays \<open>null\<close>.
\<close>

theorem not_good_tick_keeps_lock_or_resets:
  fixes v t st
  defines "buf \<equiv> push_sample (SAMPLE_BUFFER st) \<lparr> sample_value = v, sample_time = t \<rparr>"
  defines "sg \<equiv> analyzeSignalQuality buf (analyzeData buf)"
  defines "st' \<equiv> fst (processFrame v t st)"
  assumes bad: "\<not> sig_good sg"
  shows "(lockedBpm st \<noteq> None \<longrightarrow>
            st' = st\<lparr> SAMPLE_BUFFER := buf, lastSignalQualityStatus := sig_status sg \<rparr>
            \<and> recentValidRawBpms st' = recentValidRawBpms st
            \<and> stableBpmCandidateBuffer st' = stableBpmCandidateBuffer st
            \<and> currentStableBpmCandidate st' = currentStableBpmCandidate st
            \<and> currentStabilityCounter st' = currentStabilityCounter st
            \<and> lockedBpm st' = lockedBpm st)
       \<and> (lockedBpm st = None \<longrightarrow>
            st' = resetMeasurementState False
                    (st\<lparr> SAMPLE_BUFFER := buf, lastSignalQualityStatus := sig_status sg \<rparr>)
            \<and> recentValidRawBpms st' = []
            \<and> stableBpmCandidateBuffer st' = []
            \<and> currentStableBpmCandidate st' = None
            \<and> currentStabilityCounter st' = 0
            \<and> lockedBpm st' = None)
       \<and> (snd (processFrame v t st) = None
            \<or> snd (processFrame v t st) = Some (Status (sig_status sg)))"
  using bad unfolding st'_def sg_def buf_def
  by (simp add: processFrame_not_good Let_def resetMeasurementState_def)

theorem not_good_tick_keeps_lock_or_resets_witness:
  "\<not> sig_good (analyzeSignalQuality
        (push_sample (SAMPLE_BUFFER locked_monitor) \<lparr> sample_value = Num 1, sample_time = 30000 \<rparr>)
        (analyzeData
           (push_sample (SAMPLE_BUFFER locked_monitor) \<lparr> sample_value = Num 1, sample_time = 30000 \<rparr>)))
   \<and> lockedBpm locked_monitor \<noteq> None
   \<and> recentValidRawBpms (fst (processFrame (Num 1) 30000 locked_monitor))
       = recentValidRawBpms locked_monitor
   \<and> stableBpmCandidateBuffer (fst (processFrame (Num 1) 30000 locked_monitor))
       = [Num 72, Num 72, Num 72]
   \<and> currentStableBpmCandidate (fst (processFrame (Num 1) 30000 locked_monitor)) = Some (Num 72)
   \<and> currentStabilityCounter (fst (processFrame (Num 1) 30000 locked_monitor)) = 3
   \<and> lockedBpm (fst (processFrame (Num 1) 30000 locked_monitor)) = Some (Num 72)
   \<and> \<not> sig_good (analyzeSignalQuality
        (push_sample (SAMPLE_BUFFER initial_monitor) \<lparr> sample_value = Num 1, sample_time = 0 \<rparr>)
        (analyzeData
           (push_sample (SAMPLE_BUFFER initial_monitor) \<lparr> sample_value = Num 1, sample_time = 0 \<rparr>)))
   \<and> lockedBpm initial_monitor = None
   \<and> recentValidRawBpms (fst (processFrame (Num 1) 0 initial_monitor)) = []
   \<and> lockedBpm (fst (processFrame (Num 1) 0 initial_monitor)) = None"
proof -
  have b: "SAMPLE_BUFFER locked_monitor = flat_samples 300"
    and l: "lockedBpm locked_monitor = Some (Num 72)"
    and o: "stableBpmCandidateBuffer locked_monitor = [Num 72, Num 72, Num 72]"
       "currentStableBpmCandidate locked_monitor = Some (Num 72)"
       "currentStabilityCounter locked_monitor = 3"
    by (simp_all add: locked_monitor_def)
  have h1: "\<not> sig_good (analyzeSignalQuality
        (push_sample (SAMPLE_BUFFER locked_monitor) \<lparr> sample_value = Num 1, sample_time = 30000 \<rparr>)
        (analyzeData
           (push_sample (SAMPLE_BUFFER locked_monitor) \<lparr> sample_value = Num 1, sample_time = 30000 \<rparr>)))"
    unfolding b flat_tick_low by simp
  have i: "SAMPLE_BUFFER initial_monitor = []" "lockedBpm initial_monitor = None"
    by (simp_all add: initial_monitor_def)
  have h2: "\<not> sig_good (analyzeSignalQuality
        (push_sample (SAMPLE_BUFFER initial_monitor) \<lparr> sample_value = Num 1, sample_time = 0 \<rparr>)
        (analyzeData
           (push_sample (SAMPLE_BUFFER initial_monitor) \<lparr> sample_value = Num 1, sample_time = 0 \<rparr>)))"
    unfolding i
    by (simp add: push_sample_def analyzeSignalQuality_def MIN_SAMPLES_FOR_ANALYSIS_def
          MAX_SAMPLES_def)
  from not_good_tick_keeps_lock_or_resets [OF h1] l o
  have c1: "recentValidRawBpms (fst (processFrame (Num 1) 30000 locked_monitor))
       = recentValidRawBpms locked_monitor
   \<and> stableBpmCandidateBuffer (fst (processFrame (Num 1) 30000 locked_monitor))
       = [Num 72, Num 72, Num 72]
   \<and> currentStableBpmCandidate (fst (processFrame (Num 1) 30000 locked_monitor)) = Some (Num 72)
   \<and> currentStabilityCounter (fst (processFrame (Num 1) 30000 locked_monitor)) = 3
   \<and> lockedBpm (fst (processFrame (Num 1) 30000 locked_monitor)) = Some (Num 72)"
    by simp
  from not_good_tick_keeps_lock_or_resets [OF h2] i(2)
  have c2: "recentValidRawBpms (fst (processFrame (Num 1) 0 initial_monitor)) = []
   \<and> lockedBpm (fst (processFrame (Num 1) 0 initial_monitor)) = None"
    by (simp add: resetMeasurementState_def)
  from h1 h2 l i(2) c1 c2 show ?thesis by simp
qed

section \<open>The median\<close>

lemma numbers_map_Num [simp]: "numbers (map Num xs) = xs"
  by (induction xs) simp_all

lemma numbers_map_of_int [simp]: "numbers (map (\<lambda>d. Num (f d)) xs) = map f xs"
  by (induction xs) simp_all

lemma even_half_facts:
  "even (n::nat) \<Longrightarrow> n \<noteq> 0 \<Longrightarrow> n div 2 \<noteq> 0 \<and> n div 2 < n \<and> n div 2 - 1 < n \<and> \<not> n < 2"
  by presburger

lemma calculateMedian_numbers:
  assumes "numbers arr \<noteq> []"
  shows "calculateMedian arr = Some (Num (median_spec (numbers arr)))"
proof -
  let ?s = "sort (numbers arr)"
  from assms have ne: "arr \<noteq> []" by auto
  from assms have len: "length ?s \<noteq> 0" by simp
  then have sne: "?s \<noteq> []" by (metis list.size(3))
  show ?thesis
  proof (cases "even (length ?s)")
    case True
    with len have "length ?s div 2 \<noteq> 0" "\<not> length ?s < 2"
      using even_half_facts [of "length ?s"] by blast+
    with True ne len sne show ?thesis
      by (simp add: calculateMedian_def median_spec_def Let_def)
  next
    case False
    then have "length (numbers arr) mod 2 = 1" by (simp add: odd_iff_mod_2_eq_one)
    with False ne len sne show ?thesis
      by (simp add: calculateMedian_def median_spec_def Let_def)
  qed
qed

lemma median_spec_mid:
  assumes "xs \<noteq> []"
  shows "\<exists>a\<in>set xs. \<exists>b\<in>set xs. median_spec xs = (a + b) / 2"
proof -
  let ?s = "sort xs"
  let ?n = "length ?s"
  have n: "?n \<noteq> 0" using assms by simp
  have mem: "\<And>i. i < ?n \<Longrightarrow> ?s ! i \<in> set xs"
    using nth_mem [of _ ?s] by simp
  show ?thesis
  proof (cases "even ?n")
    case True
    with n have "?n div 2 - 1 < ?n" "?n div 2 < ?n"
      using even_half_facts [of ?n] by blast+
    then have "?s ! (?n div 2 - 1) \<in> set xs" "?s ! (?n div 2) \<in> set xs"
      using mem by blast+
    moreover have "median_spec xs = (?s ! (?n div 2 - 1) + ?s ! (?n div 2)) / 2"
      using True by (simp add: median_spec_def Let_def)
    ultimately show ?thesis by blast
  next
    case False
    with n have "?n div 2 < ?n" by auto
    then have "?s ! (?n div 2) \<in> set xs" using mem by blast
    moreover have "median_spec xs = (?s ! (?n div 2) + ?s ! (?n div 2)) / 2"
      using False by (simp add: median_spec_def Let_def)
    ultimately show ?thesis by blast
  qed
qed

lemma median_spec_bounds:
  assumes "xs \<noteq> []" and "\<And>x. x \<in> set xs \<Longrightarrow> lo \<le> x \<and> x \<le> hi"
  shows "lo \<le> median_spec xs \<and> median_spec xs \<le> hi"
proof -
  from median_spec_mid [OF assms(1)] obtain a b
    where "a \<in> set xs" "b \<in> set xs" and m: "median_spec xs = (a + b) / 2" by blast
  with assms(2) have "lo \<le> a" "a \<le> hi" "lo \<le> b" "b \<le> hi" by blast+
  with m show ?thesis by simp
qed



section \<open>The raw BPM estimator\<close>







lemma filter_rejects:
  assumes "\<not> bpm_in_range r"
  shows "rawBpmConsistencyFilter (Some r) t rng st = st"
proof -
  have "(js_ge r (Num 30) \<and> js_le r (Num 220)) = False"
    using assms by (simp add: bpm_in_range_def)
  then show ?thesis
    unfolding rawBpmConsistencyFilter_def by (simp only: option.case if_False)
qed



section \<open>The consistency filter and the stabilizer\<close>

lemma bpm_in_range_Num: "bpm_in_range r \<longleftrightarrow> (\<exists>x. r = Num x \<and> 30 \<le> x \<and> x \<le> 220)"
  by (cases r) (simp_all add: bpm_in_range_def js_ge_def)

lemma in_range_numbers:
  assumes "\<And>r. r \<in> set rs \<Longrightarrow> bpm_in_range r"
  shows "map Num (numbers rs) = rs"
    and "\<And>x. x \<in> set (numbers rs) \<Longrightarrow> 30 \<le> x \<and> x \<le> 220"
  using assms
proof (induction rs)
  case Nil
  { case 1 show ?case by simp }
  { case 2 then show ?case by simp }
next
  case (Cons r rs)
  { case 1
    then have "bpm_in_range r" by simp
    then obtain x where "r = Num x" by (auto simp: bpm_in_range_Num)
    moreover have "map Num (numbers rs) = rs" using Cons.IH(1) 1 by simp
    ultimately show ?case by simp }
  { case 2
    have "bpm_in_range r" using 2(2) by simp
    then obtain y where r: "r = Num y" "30 \<le> y" "y \<le> 220" by (auto simp: bpm_in_range_Num)
    have "\<And>z. z \<in> set (numbers rs) \<Longrightarrow> 30 \<le> z \<and> z \<le> 220"
      using Cons.IH(2) 2(2) by simp
    with 2(1) r show ?case by auto }
qed

lemma in_range_numbers_all: "list_all bpm_in_range rs \<Longrightarrow> map Num (numbers rs) = rs"
  using in_range_numbers(1) [of rs] by (simp add: list_all_iff)

lemma Math_min_Num: "xs \<noteq> [] \<Longrightarrow> Math_min (map Num xs) = Num (Min (set xs))"
proof (induction xs rule: list_nonempty_induct)
  case (single x)
  show ?case by simp
next
  case (cons x xs)
  then obtain y ys where "xs = y # ys" by (cases xs) auto
  with cons show ?case by (simp add: min.commute)
qed

lemma Math_max_Num: "xs \<noteq> [] \<Longrightarrow> Math_max (map Num xs) = Num (Max (set xs))"
proof (induction xs rule: list_nonempty_induct)
  case (single x)
  show ?case by simp
next
  case (cons x xs)
  then obtain y ys where "xs = y # ys" by (cases xs) auto
  with cons show ?case by (simp add: max.commute)
qed

lemma push_candidate_full:
  "length b = STABLE_BPM_CANDIDATE_BUFFER_SIZE \<Longrightarrow> push_candidate b c = tl b @ [c]"
  by (cases b) (simp_all add: push_candidate_def Let_def STABLE_BPM_CANDIDATE_BUFFER_SIZE_def)

lemma push_candidate_not_full:
  "length b < STABLE_BPM_CANDIDATE_BUFFER_SIZE \<Longrightarrow> push_candidate b c = b @ [c]"
  by (simp add: push_candidate_def Let_def)

lemma push_candidate_length:
  "length b \<le> STABLE_BPM_CANDIDATE_BUFFER_SIZE
   \<Longrightarrow> length (push_candidate b c) \<le> STABLE_BPM_CANDIDATE_BUFFER_SIZE"
  by (simp add: push_candidate_def Let_def)

lemma push_candidate_set: "set (push_candidate b c) \<subseteq> insert c (set b)"
  by (cases b) (auto simp: push_candidate_def Let_def dest: list.set_sel(2))

lemma push_candidate_all:
  "list_all P b \<Longrightarrow> P c \<Longrightarrow> list_all P (push_candidate b c)"
  using push_candidate_set [of b c] by (auto simp: list_all_iff)

lemma median_in_range:
  assumes "list_all bpm_in_range rs" and "rs \<noteq> []"
  shows "calculateMedian rs = Some (Num (median_spec (numbers rs)))"
    and "30 \<le> median_spec (numbers rs)" and "median_spec (numbers rs) \<le> 220"
proof -
  have mem: "\<And>r. r \<in> set rs \<Longrightarrow> bpm_in_range r"
    using assms(1) by (simp add: list_all_iff)
  have eq: "map Num (numbers rs) = rs" using in_range_numbers(1) [OF mem] .
  with assms(2) have ne: "numbers rs \<noteq> []" by auto
  show "calculateMedian rs = Some (Num (median_spec (numbers rs)))"
    using ne by (rule calculateMedian_numbers)
  have "30 \<le> median_spec (numbers rs) \<and> median_spec (numbers rs) \<le> 220"
    using ne in_range_numbers(2) [OF mem] by (intro median_spec_bounds) auto
  then show "30 \<le> median_spec (numbers rs)" "median_spec (numbers rs) \<le> 220" by simp_all
qed

lemma round_in_range:
  assumes "30 \<le> x" and "x \<le> 220"
  shows "bpm_in_range (Math_round (Num x))" and "integer_bpm (Math_round (Num x))"
proof -
  have "30 \<le> \<lfloor>x + 1 / 2\<rfloor>" using assms(1) by (simp add: le_floor_iff)
  moreover have "\<lfloor>x + 1 / 2\<rfloor> \<le> 220" using assms(2) by (simp add: floor_le_iff)
  ultimately show "bpm_in_range (Math_round (Num x))"
    by (simp add: bpm_in_range_def js_ge_def)
  show "integer_bpm (Math_round (Num x))" by (simp add: integer_bpm_def)
qed

lemma smoothing_in_range:
  fixes c m :: real
  assumes "30 \<le> c" "c \<le> 220" "30 \<le> m" "m \<le> 220"
  shows "30 \<le> c * 0.7 + m * 0.3" and "c * 0.7 + m * 0.3 \<le> 220"
  using assms by simp_all

text \<open>The stabilizer, step by step, on a buffer of candidates in range.\<close>

lemma stabilizer_spec:
  fixes st
  defines "m \<equiv> median_spec (numbers (stableBpmCandidateBuffer st))"
  defines "st' \<equiv> fst (stabilizer st)"
  assumes cands: "list_all bpm_in_range (stableBpmCandidateBuffer st)"
    and enough: "REQUIRED_STABILITY_COUNT \<le> length (stableBpmCandidateBuffer st)"
  shows "calculateMedian (stableBpmCandidateBuffer st) = Some (Num m)"
    and "currentStableBpmCandidate st = None \<Longrightarrow>
           currentStableBpmCandidate st' = Some (Num m) \<and> currentStabilityCounter st' = 1"
    and "currentStableBpmCandidate st = Some (Num c) \<Longrightarrow> \<bar>m - c\<bar> \<le> 3 \<Longrightarrow>
           currentStabilityCounter st' = currentStabilityCounter st + 1
           \<and> currentStableBpmCandidate st' = Some (Num (c * 0.7 + m * 0.3))"
    and "currentStableBpmCandidate st = Some (Num c) \<Longrightarrow> \<not> \<bar>m - c\<bar> \<le> 3 \<Longrightarrow>
           currentStableBpmCandidate st' = Some (Num m) \<and> currentStabilityCounter st' = 1"
    and "REQUIRED_STABILITY_COUNT \<le> currentStabilityCounter st' \<Longrightarrow>
           lockedBpm st' = Some (round_candidate (currentStableBpmCandidate st'))
           \<and> snd (stabilizer st)
               = Some (Locked_value (round_candidate (currentStableBpmCandidate st')))"
    and "\<not> REQUIRED_STABILITY_COUNT \<le> currentStabilityCounter st' \<Longrightarrow>
           lockedBpm st' = lockedBpm st
           \<and> snd (stabilizer st)
               = Some (case lockedBpm st of
                         Some l \<Rightarrow> Locked_value l
                       | None \<Rightarrow> Candidate_value
                                   (round_candidate (currentStableBpmCandidate st')))"
proof -
  from enough have ne: "stableBpmCandidateBuffer st \<noteq> []"
    by (auto simp: REQUIRED_STABILITY_COUNT_def)
  show med: "calculateMedian (stableBpmCandidateBuffer st) = Some (Num m)"
    unfolding m_def using cands ne by (rule median_in_range(1))
  have "30 \<le> m" unfolding m_def using cands ne by (rule median_in_range(2))
  then have m0: "m \<noteq> 0" by simp
  have enough3: "3 \<le> length (stableBpmCandidateBuffer st)"
    using enough by (simp add: REQUIRED_STABILITY_COUNT_def)
  note unf = stabilizer_def st'_def Let_def med m0 enough3 BPM_STABILITY_TOLERANCE_def
    REQUIRED_STABILITY_COUNT_def
  show "currentStableBpmCandidate st = None \<Longrightarrow>
           currentStableBpmCandidate st' = Some (Num m) \<and> currentStabilityCounter st' = 1"
    by (simp add: unf split: option.splits)
  show "currentStableBpmCandidate st = Some (Num c) \<Longrightarrow> \<bar>m - c\<bar> \<le> 3 \<Longrightarrow>
           currentStabilityCounter st' = currentStabilityCounter st + 1
           \<and> currentStableBpmCandidate st' = Some (Num (c * 0.7 + m * 0.3))"
    by (simp add: unf split: option.splits)
  show "currentStableBpmCandidate st = Some (Num c) \<Longrightarrow> \<not> \<bar>m - c\<bar> \<le> 3 \<Longrightarrow>
           currentStableBpmCandidate st' = Some (Num m) \<and> currentStabilityCounter st' = 1"
    by (simp add: unf split: option.splits)
  show "REQUIRED_STABILITY_COUNT \<le> currentStabilityCounter st' \<Longrightarrow>
           lockedBpm st' = Some (round_candidate (currentStableBpmCandidate st'))
           \<and> snd (stabilizer st)
               = Some (Locked_value (round_candidate (currentStableBpmCandidate st')))"
    by (auto simp: unf split: option.splits if_splits)
  show "\<not> REQUIRED_STABILITY_COUNT \<le> currentStabilityCounter st' \<Longrightarrow>
           lockedBpm st' = lockedBpm st
           \<and> snd (stabilizer st)
               = Some (case lockedBpm st of
                         Some l \<Rightarrow> Locked_value l
                       | None \<Rightarrow> Candidate_value
                                   (round_candidate (currentStableBpmCandidate st')))"
    by (auto simp: unf round_candidate_def split: option.splits if_splits)
qed

text \<open>The filter, step by step, on an accepted raw BPM.\<close>

lemma rawBpmConsistencyFilter_spec:
  fixes st r t rng
  defines "recent \<equiv> filter (\<lambda>rb. t - rb_time rb < RAW_BPM_VALIDITY_WINDOW_MS)
                      (recentValidRawBpms st @ [\<lparr> rb_bpm = r, rb_time = t, rb_range = rng \<rparr>])"
  defines "bpms \<equiv> numbers (map rb_bpm recent)"
  defines "st' \<equiv> rawBpmConsistencyFilter (Some r) t rng st"
  assumes acc: "bpm_in_range r"
    and win: "list_all (\<lambda>rb. bpm_in_range (rb_bpm rb)) (recentValidRawBpms st)"
  shows "recentValidRawBpms st' = recent"
    and "list_all (\<lambda>rb. bpm_in_range (rb_bpm rb)) recent"
    and "MIN_CONSISTENT_RAW_BPMS_FOR_CANDIDATE \<le> length recent \<Longrightarrow>
         Max (set bpms) - Min (set bpms) \<le> 10 \<Longrightarrow>
           stableBpmCandidateBuffer st'
           = push_candidate (stableBpmCandidateBuffer st) (Num (median_spec bpms))
           \<and> 30 \<le> median_spec bpms \<and> median_spec bpms \<le> 220"
    and "length recent < MIN_CONSISTENT_RAW_BPMS_FOR_CANDIDATE
         \<or> 10 < Max (set bpms) - Min (set bpms) \<Longrightarrow>
           stableBpmCandidateBuffer st' = stableBpmCandidateBuffer st"
proof -
  have acc': "js_ge r (Num 30) \<and> js_le r (Num 220)"
    using acc by (simp add: bpm_in_range_def)
  show all: "list_all (\<lambda>rb. bpm_in_range (rb_bpm rb)) recent"
    using acc win by (auto simp: recent_def list_all_iff)
  then have all': "list_all bpm_in_range (map rb_bpm recent)"
    by (simp add: list_all_iff)
  have eq: "map rb_bpm recent = map Num bpms"
    unfolding bpms_def using in_range_numbers_all [OF all'] by simp
  have body: "st' =
      (let st1 = st\<lparr> recentValidRawBpms := recent \<rparr>
       in if length recent \<ge> MIN_CONSISTENT_RAW_BPMS_FOR_CANDIDATE then
            if js_le (js_sub (Math_max (map rb_bpm recent)) (Math_min (map rb_bpm recent)))
                 RAW_BPM_CONSISTENCY_THRESHOLD then
              (case calculateMedian (map rb_bpm recent) of
                 None \<Rightarrow> st1
               | Some c \<Rightarrow>
                   if js_truthy c then
                     st1\<lparr> stableBpmCandidateBuffer :=
                            push_candidate (stableBpmCandidateBuffer st1) c \<rparr>
                   else st1)
            else st1
          else st1)"
    unfolding st'_def rawBpmConsistencyFilter_def recent_def using acc'
    by (simp only: option.case if_True Let_def simp_thms)
  show "recentValidRawBpms st' = recent"
    unfolding body by (simp add: Let_def split: option.splits)
  { assume len: "MIN_CONSISTENT_RAW_BPMS_FOR_CANDIDATE \<le> length recent"
    then have "recent \<noteq> []" by (auto simp: MIN_CONSISTENT_RAW_BPMS_FOR_CANDIDATE_def)
    then have ne: "map rb_bpm recent \<noteq> []" by simp
    then have bne: "bpms \<noteq> []" using eq by auto
    have spread: "js_le (js_sub (Math_max (map rb_bpm recent)) (Math_min (map rb_bpm recent)))
                    RAW_BPM_CONSISTENCY_THRESHOLD
                  = (Max (set bpms) - Min (set bpms) \<le> 10)"
      unfolding eq using bne
      by (simp add: Math_max_Num Math_min_Num RAW_BPM_CONSISTENCY_THRESHOLD_def)
    have med: "calculateMedian (map rb_bpm recent) = Some (Num (median_spec bpms))"
      unfolding bpms_def using all' ne by (rule median_in_range(1))
    have lo: "30 \<le> median_spec bpms"
      unfolding bpms_def using all' ne by (rule median_in_range(2))
    have hi: "median_spec bpms \<le> 220"
      unfolding bpms_def using all' ne by (rule median_in_range(3))
    from lo have m0: "median_spec bpms \<noteq> 0" by simp
    note len spread med lo hi m0 }
  note facts = this
  show "MIN_CONSISTENT_RAW_BPMS_FOR_CANDIDATE \<le> length recent \<Longrightarrow>
         Max (set bpms) - Min (set bpms) \<le> 10 \<Longrightarrow>
           stableBpmCandidateBuffer st'
           = push_candidate (stableBpmCandidateBuffer st) (Num (median_spec bpms))
           \<and> 30 \<le> median_spec bpms \<and> median_spec bpms \<le> 220"
    using facts unfolding body by (simp add: Let_def)
  show "length recent < MIN_CONSISTENT_RAW_BPMS_FOR_CANDIDATE
         \<or> 10 < Max (set bpms) - Min (set bpms) \<Longrightarrow>
           stableBpmCandidateBuffer st' = stableBpmCandidateBuffer st"
  proof (cases "MIN_CONSISTENT_RAW_BPMS_FOR_CANDIDATE \<le> length recent")
    case True
    assume "length recent < MIN_CONSISTENT_RAW_BPMS_FOR_CANDIDATE
         \<or> 10 < Max (set bpms) - Min (set bpms)"
    with True have "\<not> Max (set bpms) - Min (set bpms) \<le> 10" by auto
    with True facts(2) [OF True] show ?thesis unfolding body by (simp add: Let_def)
  next
    case False
    then show ?thesis unfolding body by (simp add: Let_def)
  qed
qed

section \<open>The invariant of a run\<close>

lemma rawBpmConsistencyFilter_inv:
  assumes "monitor_inv st"
  shows "monitor_inv (rawBpmConsistencyFilter rawBpm t rng st)"
proof (cases "\<exists>r. rawBpm = Some r \<and> bpm_in_range r")
  case False
  have "rawBpmConsistencyFilter rawBpm t rng st = st"
  proof (cases rawBpm)
    case None
    then show ?thesis by (simp add: rawBpmConsistencyFilter_def)
  next
    case (Some a)
    with False have "\<not> bpm_in_range a" by simp
    with Some show ?thesis by (simp add: filter_rejects)
  qed
  with assms show ?thesis by simp
next
  case True
  then obtain r where r: "rawBpm = Some r" "bpm_in_range r" by blast
  let ?st' = "rawBpmConsistencyFilter (Some r) t rng st"
  let ?recent = "filter (\<lambda>rb. t - rb_time rb < RAW_BPM_VALIDITY_WINDOW_MS)
                      (recentValidRawBpms st @ [\<lparr> rb_bpm = r, rb_time = t, rb_range = rng \<rparr>])"
  let ?bpms = "numbers (map rb_bpm ?recent)"
  from assms have win: "list_all (\<lambda>rb. bpm_in_range (rb_bpm rb)) (recentValidRawBpms st)"
    and cands: "list_all bpm_in_range (stableBpmCandidateBuffer st)"
    by (simp_all add: monitor_inv_def)
  note spec = rawBpmConsistencyFilter_spec [OF r(2) win, of t rng]
  have w: "list_all (\<lambda>rb. bpm_in_range (rb_bpm rb)) (recentValidRawBpms ?st')"
    using spec(1,2) by simp
  have c: "list_all bpm_in_range (stableBpmCandidateBuffer ?st')"
  proof (cases "MIN_CONSISTENT_RAW_BPMS_FOR_CANDIDATE \<le> length ?recent
                \<and> Max (set ?bpms) - Min (set ?bpms) \<le> 10")
    case True
    then have "stableBpmCandidateBuffer ?st'
           = push_candidate (stableBpmCandidateBuffer st) (Num (median_spec ?bpms))
           \<and> 30 \<le> median_spec ?bpms \<and> median_spec ?bpms \<le> 220"
      using spec(3) by blast
    then show ?thesis
      using cands by (auto intro!: push_candidate_all simp: bpm_in_range_Num)
  next
    case False
    then have "stableBpmCandidateBuffer ?st' = stableBpmCandidateBuffer st"
      using spec(4) by force
    with cands show ?thesis by simp
  qed
  from assms w c show ?thesis
    unfolding r(1) by (simp add: monitor_inv_def rawBpmConsistencyFilter_frame)
qed

lemma stabilizer_inv_display:
  assumes inv: "monitor_inv st"
  shows "monitor_inv (fst (stabilizer st))"
    and "snd (stabilizer st) = Some d \<Longrightarrow> allowed_display d"
proof -
  from inv have cands: "list_all bpm_in_range (stableBpmCandidateBuffer st)"
    and cand: "currentStableBpmCandidate st = None
               \<or> (\<exists>c. currentStableBpmCandidate st = Some (Num c) \<and> 30 \<le> c \<and> c \<le> 220)"
    and lock: "lockedBpm st = None
               \<or> (\<exists>l. lockedBpm st = Some l \<and> bpm_in_range l \<and> integer_bpm l)"
    by (auto simp: monitor_inv_def bpm_in_range_Num split: option.splits)
  let ?st' = "fst (stabilizer st)"
  have "monitor_inv ?st' \<and> (\<forall>d. snd (stabilizer st) = Some d \<longrightarrow> allowed_display d)"
  proof (cases "REQUIRED_STABILITY_COUNT \<le> length (stableBpmCandidateBuffer st)")
    case False
    then have "stabilizer st =
        (case lockedBpm st of Some l \<Rightarrow> (st, Some (Locked_value l))
         | None \<Rightarrow> (st, Some (Status ''Detecting...'')))"
      by (simp add: stabilizer_def)
    with inv lock show ?thesis
      by (auto simp: allowed_display_def status_strings_def)
  next
    case True
    let ?m = "median_spec (numbers (stableBpmCandidateBuffer st))"
    note spec = stabilizer_spec [OF cands True]
    from True have ne: "stableBpmCandidateBuffer st \<noteq> []"
      by (auto simp: REQUIRED_STABILITY_COUNT_def)
    have m: "30 \<le> ?m" "?m \<le> 220"
      using median_in_range(2,3) [OF cands ne] by simp_all
    have cand': "\<exists>c'. currentStableBpmCandidate ?st' = Some (Num c') \<and> 30 \<le> c' \<and> c' \<le> 220"
    proof (cases "currentStableBpmCandidate st")
      case None
      with spec(2) m show ?thesis by simp
    next
      case (Some x)
      with cand obtain c where c: "currentStableBpmCandidate st = Some (Num c)" "30 \<le> c" "c \<le> 220"
        by auto
      show ?thesis
      proof (cases "\<bar>?m - c\<bar> \<le> 3")
        case True
        with c spec(3) [of c] smoothing_in_range [of c ?m] m show ?thesis by simp
      next
        case False
        with c spec(4) [of c] m show ?thesis by simp
      qed
    qed
    then obtain c' where c': "currentStableBpmCandidate ?st' = Some (Num c')" "30 \<le> c'" "c' \<le> 220"
      by blast
    have rc: "round_candidate (currentStableBpmCandidate ?st') = Math_round (Num c')"
      using c'(1) by (simp add: round_candidate_def)
    have rest: "recentValidRawBpms ?st' = recentValidRawBpms st"
      "stableBpmCandidateBuffer ?st' = stableBpmCandidateBuffer st"
      by (simp_all add: stabilizer_frame)
    from inv have win: "list_all (\<lambda>rb. bpm_in_range (rb_bpm rb)) (recentValidRawBpms st)"
      by (simp add: monitor_inv_def)
    show ?thesis
    proof (cases "REQUIRED_STABILITY_COUNT \<le> currentStabilityCounter ?st'")
      case True
      from spec(5) [OF True] have l: "lockedBpm ?st' = Some (Math_round (Num c'))"
        and s: "snd (stabilizer st) = Some (Locked_value (Math_round (Num c')))"
        unfolding rc by blast+
      from round_in_range [OF c'(2,3)] l s c' rest win cands show ?thesis
        by (simp add: monitor_inv_def allowed_display_def bpm_in_range_Num)
    next
      case False
      from spec(6) [OF False] have l: "lockedBpm ?st' = lockedBpm st"
        and s: "snd (stabilizer st) =
                  Some (case lockedBpm st of Some l \<Rightarrow> Locked_value l
                        | None \<Rightarrow> Candidate_value (Math_round (Num c')))"
        unfolding rc by blast+
      from round_in_range [OF c'(2,3)] l s c' rest win cands lock show ?thesis
        by (auto simp: monitor_inv_def allowed_display_def bpm_in_range_Num)
    qed
  qed
  then show "monitor_inv (fst (stabilizer st))"
    and "snd (stabilizer st) = Some d \<Longrightarrow> allowed_display d" by blast+
qed

lemma monitor_inv_frame:
  "monitor_inv (st\<lparr> SAMPLE_BUFFER := b, lastSignalQualityStatus := s \<rparr>) = monitor_inv st"
  by (simp add: monitor_inv_def)

lemma resetMeasurementState_inv:
  "monitor_inv st \<Longrightarrow> monitor_inv (resetMeasurementState clearLocked st)"
  by (simp add: monitor_inv_def resetMeasurementState_def)

lemma processFrame_inv_display:
  assumes inv: "monitor_inv st"
  shows "monitor_inv (fst (processFrame v t st))"
    and "snd (processFrame v t st) = Some d \<Longrightarrow> allowed_display d"
proof -
  let ?buf = "push_sample (SAMPLE_BUFFER st) \<lparr> sample_value = v, sample_time = t \<rparr>"
  let ?sg = "analyzeSignalQuality ?buf (analyzeData ?buf)"
  have "monitor_inv (fst (processFrame v t st))
        \<and> (\<forall>d. snd (processFrame v t st) = Some d \<longrightarrow> allowed_display d)"
  proof (cases "sig_good ?sg")
    case False
    then have st: "sig_status ?sg \<in> set status_strings"
      using gate_status [of ?buf "analyzeData ?buf"] gate_good_status [of ?buf "analyzeData ?buf"]
      by (auto simp: status_strings_def)
    from False inv st show ?thesis
      by (simp add: processFrame_not_good Let_def monitor_inv_frame resetMeasurementState_inv
            allowed_display_def)
  next
    case True
    let ?st1 = "rawBpmConsistencyFilter (calculateBpm (ds_crossings (analyzeData ?buf))) t
                  (ds_range (analyzeData ?buf))
                  (st\<lparr> SAMPLE_BUFFER := ?buf, lastSignalQualityStatus := sig_status ?sg \<rparr>)"
    have "monitor_inv ?st1"
      using inv by (intro rawBpmConsistencyFilter_inv) (simp add: monitor_inv_frame)
    from stabilizer_inv_display [OF this] True show ?thesis
      by (simp add: processFrame_good Let_def)
  qed
  then show "monitor_inv (fst (processFrame v t st))"
    and "snd (processFrame v t st) = Some d \<Longrightarrow> allowed_display d" by blast+
qed

lemma initial_monitor_inv: "monitor_inv initial_monitor"
  by (simp add: monitor_inv_def initial_monitor_def)

lemma reachable_inv: "reachable st \<Longrightarrow> monitor_inv st"
  by (induction rule: reachable.induct)
     (simp_all add: initial_monitor_inv processFrame_inv_display(1) resetMeasurementState_inv)

lemma first_frame:
  "processFrame v t initial_monitor =
     (initial_monitor\<lparr> SAMPLE_BUFFER := [\<lparr> sample_value = v, sample_time = t \<rparr>] \<rparr>,
      Some (Status ''Analyzing...''))"
proof -
  have buf: "push_sample (SAMPLE_BUFFER initial_monitor) \<lparr> sample_value = v, sample_time = t \<rparr>
             = [\<lparr> sample_value = v, sample_time = t \<rparr>]"
    by (simp add: push_sample_def initial_monitor_def MAX_SAMPLES_def)
  have fields: "lockedBpm initial_monitor = None" "lastSignalQualityStatus initial_monitor = []"
    by (simp_all add: initial_monitor_def)
  have sg: "analyzeSignalQuality [\<lparr> sample_value = v, sample_time = t \<rparr>] stats
            = \<lparr> sig_good = False, sig_status = ''Analyzing...'' \<rparr>" for stats
    by (simp add: analyzeSignalQuality_def MIN_SAMPLES_FOR_ANALYSIS_def MAX_SAMPLES_def)
  have "\<not> sig_good (analyzeSignalQuality
                (push_sample (SAMPLE_BUFFER initial_monitor) \<lparr> sample_value = v, sample_time = t \<rparr>)
                (analyzeData (push_sample (SAMPLE_BUFFER initial_monitor) \<lparr> sample_value = v, sample_time = t \<rparr>)))"
    unfolding buf sg by simp
  from processFrame_not_good [OF this]
  have "processFrame v t initial_monitor =
          (resetMeasurementState False
             (initial_monitor\<lparr> SAMPLE_BUFFER := [\<lparr> sample_value = v, sample_time = t \<rparr>],
                               lastSignalQualityStatus := ''Analyzing...'' \<rparr>),
           Some (Status ''Analyzing...''))"
    using fields by (simp add: Let_def buf sg)
  then show ?thesis
    by (simp add: initial_monitor_def resetMeasurementState_def)
qed

lemma run_keeps_allowed:
  "reachable st \<Longrightarrow> allowed_display d \<Longrightarrow>
   reachable (fst (run frames (st, d))) \<and> allowed_display (snd (run frames (st, d)))"
proof (induction frames arbitrary: st d)
  case Nil
  then show ?case by simp
next
  case (Cons f frames)
  obtain v t where f: "f = (v, t)" by (cases f)
  let ?st' = "fst (processFrame v t st)"
  let ?d' = "case snd (processFrame v t st) of None \<Rightarrow> d | Some d' \<Rightarrow> d'"
  have r: "reachable ?st'" using Cons.prems(1) by (rule reachable.frame)
  have a: "allowed_display ?d'"
    using Cons.prems(2) processFrame_inv_display(2) [OF reachable_inv [OF Cons.prems(1)], of v t]
    by (cases "snd (processFrame v t st)") simp_all
  from Cons.IH [OF r a] show ?case unfolding f by simp
qed

lemma run_append: "run (xs @ ys) sd = run ys (run xs sd)"
proof (induction xs arbitrary: sd)
  case Nil
  show ?case by simp
next
  case (Cons f xs)
  obtain v t where f: "f = (v, t)" by (cases f)
  obtain st d where sd: "sd = (st, d)" by (cases sd)
  show ?case unfolding f sd by (simp add: Cons.IH)
qed

lemma reachable_run: "reachable st \<Longrightarrow> reachable (fst (run frames (st, d)))"
proof (induction frames arbitrary: st d)
  case Nil
  then show ?case by simp
next
  case (Cons f frames)
  obtain v t where f: "f = (v, t)" by (cases f)
  have "reachable (fst (processFrame v t st))" using Cons.prems by (rule reachable.frame)
  from Cons.IH [OF this] show ?case unfolding f by simp
qed

lemma reachable_monitor_after: "reachable (monitor_after frames)"
  unfolding monitor_after_def using reachable.start by (rule reachable_run)

lemma monitor_after_snoc:
  "monitor_after (frames @ [(v, t)]) = fst (processFrame v t (monitor_after frames))"
proof -
  obtain st d where r: "run frames (initial_monitor, Status ''Starting...'') = (st, d)"
    by (cases "run frames (initial_monitor, Status ''Starting...'')")
  show ?thesis by (simp add: monitor_after_def run_append r)
qed

text \<open>
  Claim C9. In a run, every value that a frame passes to the display is a locked whole
  BPM, a tentative whole BPM, or one of the status strings \<open>Analyzing...\<close>,
  \<open>Low Signal (Place finger firmly)\<close>, \<open>Noisy Signal (Hold still)\<close>,
  \<open>Detecting Pulse...\<close>, \<open>Calculating...\<close>, \<open>Detecting...\<close>; and from the first frame
  on, the value on the display is one of these.
\<close>

theorem displayed_value_is_allowed:
  "(reachable st \<and> snd (processFrame v t st) = Some d \<longrightarrow> allowed_display d)
   \<and> (frames \<noteq> [] \<longrightarrow>
        allowed_display (snd (run frames (initial_monitor, Status ''Starting...''))))"
proof -
  have one: "reachable st \<and> snd (processFrame v t st) = Some d \<longrightarrow> allowed_display d"
    using processFrame_inv_display(2) [OF reachable_inv] by blast
  have two: "frames \<noteq> [] \<longrightarrow>
        allowed_display (snd (run frames (initial_monitor, Status ''Starting...'')))"
  proof
    assume "frames \<noteq> []"
    then obtain v0 t0 rest where fr: "frames = (v0, t0) # rest"
      by (cases frames) auto
    let ?st1 = "fst (processFrame v0 t0 initial_monitor)"
    have r: "reachable ?st1" using reachable.start by (rule reachable.frame)
    have a: "allowed_display (Status ''Analyzing...'')"
      by (simp add: allowed_display_def status_strings_def)
    have "run frames (initial_monitor, Status ''Starting...'')
          = run rest (?st1, Status ''Analyzing...'')"
      unfolding fr by (simp add: first_frame)
    with run_keeps_allowed [OF r a, of rest]
    show "allowed_display (snd (run frames (initial_monitor, Status ''Starting...'')))"
      by simp
  qed
  from one two show ?thesis by blast
qed

theorem displayed_value_is_allowed_witness:
  "reachable initial_monitor
   \<and> snd (processFrame (Num (1/2)) 1000 initial_monitor) = Some (Status ''Analyzing...'')
   \<and> allowed_display (Status ''Analyzing...'')
   \<and> [(Num (1/2), 1000), (Num (1/2), 1017)] \<noteq> []
   \<and> allowed_display
        (snd (run [(Num (1/2), 1000), (Num (1/2), 1017)] (initial_monitor, Status ''Starting...'')))"
  using displayed_value_is_allowed
          [of initial_monitor "Num (1/2)" 1000 "Status ''Analyzing...''"
              "[(Num (1/2), 1000), (Num (1/2), 1017)]"]
        reachable.start
  by (simp add: first_frame)

section \<open>The pulse train, frame by frame\<close>

text \<open>While the buffer is short the verdict is Analyzing and the state stays clear.\<close>

lemma early_frame:
  assumes "Suc (length b) < MIN_SAMPLES_FOR_ANALYSIS"
  shows "fst (processFrame v t (initial_monitor\<lparr> SAMPLE_BUFFER := b \<rparr>))
         = initial_monitor\<lparr> SAMPLE_BUFFER := b @ [\<lparr> sample_value = v, sample_time = t \<rparr>] \<rparr>"
proof -
  let ?st = "initial_monitor\<lparr> SAMPLE_BUFFER := b \<rparr>"
  let ?s = "\<lparr> sample_value = v, sample_time = t \<rparr>"
  have buf': "push_sample b ?s = b @ [?s]"
    using assms by (simp add: push_sample_def MIN_SAMPLES_FOR_ANALYSIS_def MAX_SAMPLES_def)
  then have buf: "push_sample (SAMPLE_BUFFER ?st) ?s = b @ [?s]" by simp
  have sg: "analyzeSignalQuality (b @ [?s]) stats
            = \<lparr> sig_good = False, sig_status = ''Analyzing...'' \<rparr>" for stats
    using assms by (simp add: analyzeSignalQuality_def)
  have fields: "lockedBpm ?st = None" by (simp add: initial_monitor_def)
  have "\<not> sig_good (analyzeSignalQuality (push_sample (SAMPLE_BUFFER ?st) ?s)
                      (analyzeData (push_sample (SAMPLE_BUFFER ?st) ?s)))"
    unfolding buf sg by simp
  from processFrame_not_good [OF this]
  have "fst (processFrame v t ?st)
        = resetMeasurementState False
            (?st\<lparr> SAMPLE_BUFFER := b @ [?s], lastSignalQualityStatus := ''Analyzing...'' \<rparr>)"
    using fields by (simp add: Let_def buf' sg)
  then show ?thesis by (simp add: initial_monitor_def resetMeasurementState_def)
qed

lemma early_frames:
  "length frames < MIN_SAMPLES_FOR_ANALYSIS \<Longrightarrow>
   monitor_after frames =
     initial_monitor\<lparr> SAMPLE_BUFFER :=
       map (\<lambda>(v, t). \<lparr> sample_value = v, sample_time = t \<rparr>) frames \<rparr>"
proof (induction frames rule: rev_induct)
  case Nil
  show ?case by (simp add: monitor_after_def initial_monitor_def)
next
  case (snoc f frames)
  obtain v t where f: "f = (v, t)" by (cases f)
  from snoc.prems have short: "Suc (length frames) < MIN_SAMPLES_FOR_ANALYSIS" by simp
  then have "length frames < MIN_SAMPLES_FOR_ANALYSIS" by simp
  from snoc.IH [OF this] show ?case
    unfolding f monitor_after_snoc using early_frame [of _ v t] short by simp
qed

lemma pulse_samples_Suc: "pulse_samples (Suc n) = pulse_samples n @ [pulse_sample n]"
  by (simp add: pulse_samples_def)

lemma pulse_frames_Suc:
  "pulse_frames (Suc n) = pulse_frames n @ [(Num (pulse n), 100 * int n)]"
  by (simp add: pulse_frames_def)

lemma pulse_frames_samples:
  "map (\<lambda>(v, t). \<lparr> sample_value = v, sample_time = t \<rparr>) (pulse_frames n) = pulse_samples n"
  by (simp add: pulse_frames_def pulse_samples_def pulse_sample_def)

lemma pulse_samples_length: "length (pulse_samples n) = n"
  by (simp add: pulse_samples_def)

lemma pulse_100_hd: "sample_value (hd (pulse_samples 100)) = Num 0"
  by code_simp

lemma pulse_99: "pulse_sample 99 = \<lparr> sample_value = Num 0, sample_time = 9900 \<rparr>"
  by (simp add: pulse_sample_def pulse_def)

lemma pulse_100_sum: "foldl js_add (Num 0) (map sample_value (pulse_samples 100)) = Num (22 / 5)"
  by code_simp

lemma pulse_100_max: "foldl track_max (Num 0) (pulse_samples 100) = Num 1"
  by code_simp

lemma pulse_100_min: "foldl track_min (Num 0) (pulse_samples 100) = Num 0"
  by code_simp

lemma pulse_100_crossings:
  "getAverageCrossings (pulse_samples 100) (Num (11 / 250))
   = map (\<lambda>k. pulse_sample (8 * k + 4)) [0..<12]"
  by code_simp

lemma pulse_100_bpm:
  "calculateBpm (map (\<lambda>k. pulse_sample (8 * k + 4)) [0..<12]) = Some (Num 75)"
  by code_simp

lemma pulse_late_crossings:
  "getAverageCrossings (pulse_samples 100 @ [late_sample]) (Num (27 / 505))
   = [pulse_sample 4, pulse_sample 28, pulse_sample 52, pulse_sample 76, late_sample]"
  by code_simp

lemma pulse_late_bpm:
  "calculateBpm [pulse_sample 4, pulse_sample 28, pulse_sample 52, pulse_sample 76, late_sample]
   = None"
  by code_simp

lemma pulse_100_ne: "pulse_samples 100 \<noteq> []"
  using pulse_samples_length [of 100] by auto

lemma pulse_100_stats:
  "analyzeData (pulse_samples 100) =
     \<lparr> ds_average = Num (11 / 250), ds_min = Num 0, ds_max = Num 1, ds_range = Num 1,
       ds_crossings = map (\<lambda>k. pulse_sample (8 * k + 4)) [0..<12] \<rparr>"
proof -
  have avg: "js_div (foldl js_add (Num 0) (map sample_value (pulse_samples 100)))
               (Num (real (length (pulse_samples 100)))) = Num (11 / 250)"
    by (simp add: pulse_100_sum pulse_samples_length)
  show ?thesis
    unfolding analyzeData_nonempty [OF pulse_100_ne] avg pulse_100_hd pulse_100_max
      pulse_100_min pulse_100_crossings
    by simp
qed

lemma pulse_100_good:
  "analyzeSignalQuality (pulse_samples 100) (analyzeData (pulse_samples 100))
   = \<lparr> sig_good = True, sig_status = ''Good Signal'' \<rparr>"
  by (rule gate_good_intro)
     (simp_all add: pulse_100_stats pulse_samples_length MIN_SAMPLES_FOR_ANALYSIS_def
        MAX_SAMPLES_def MIN_SIGNAL_RANGE_def MIN_CROSSINGS_FOR_RAW_BPM_def)

lemma pulse_late_ne: "pulse_samples 100 @ [late_sample] \<noteq> []"
  by simp

lemma pulse_late_stats:
  "analyzeData (pulse_samples 100 @ [late_sample]) =
     \<lparr> ds_average = Num (27 / 505), ds_min = Num 0, ds_max = Num 1, ds_range = Num 1,
       ds_crossings =
         [pulse_sample 4, pulse_sample 28, pulse_sample 52, pulse_sample 76, late_sample] \<rparr>"
proof -
  have avg: "js_div (foldl js_add (Num 0) (map sample_value (pulse_samples 100 @ [late_sample])))
               (Num (real (length (pulse_samples 100 @ [late_sample])))) = Num (27 / 505)"
    by (simp add: pulse_100_sum pulse_samples_length late_sample_def)
  have hd: "sample_value (hd (pulse_samples 100 @ [late_sample])) = Num 0"
    using pulse_100_ne pulse_100_hd by simp
  have mx: "foldl track_max (Num 0) (pulse_samples 100 @ [late_sample]) = Num 1"
    by (simp add: pulse_100_max track_max_def late_sample_def js_gt_def)
  have mn: "foldl track_min (Num 0) (pulse_samples 100 @ [late_sample]) = Num 0"
    by (simp add: pulse_100_min track_min_def late_sample_def)
  show ?thesis
    unfolding analyzeData_nonempty [OF pulse_late_ne] avg hd mx mn pulse_late_crossings
    by simp
qed

lemma pulse_late_good:
  "analyzeSignalQuality (pulse_samples 100 @ [late_sample])
     (analyzeData (pulse_samples 100 @ [late_sample]))
   = \<lparr> sig_good = True, sig_status = ''Good Signal'' \<rparr>"
  by (rule gate_good_intro)
     (simp_all add: pulse_late_stats pulse_samples_length MIN_SAMPLES_FOR_ANALYSIS_def
        MAX_SAMPLES_def MIN_SIGNAL_RANGE_def MIN_CROSSINGS_FOR_RAW_BPM_def)

lemma push_pulse_99:
  "push_sample (pulse_samples 99) \<lparr> sample_value = Num 0, sample_time = 9900 \<rparr>
   = pulse_samples 100"
proof -
  have "pulse_samples (Suc 99) = pulse_samples 99 @ [pulse_sample 99]"
    by (rule pulse_samples_Suc)
  then have "pulse_samples 100 = pulse_samples 99 @ [\<lparr> sample_value = Num 0, sample_time = 9900 \<rparr>]"
    by (simp add: pulse_99)
  then show ?thesis
    by (simp add: push_sample_def pulse_samples_length MAX_SAMPLES_def)
qed

lemma push_pulse_late:
  "push_sample (pulse_samples 100) late_sample = pulse_samples 100 @ [late_sample]"
  by (simp add: push_sample_def pulse_samples_length MAX_SAMPLES_def)

lemma monitor_after_99:
  "monitor_after (pulse_frames 99) = initial_monitor\<lparr> SAMPLE_BUFFER := pulse_samples 99 \<rparr>"
proof -
  have "length (pulse_frames 99) < MIN_SAMPLES_FOR_ANALYSIS"
    by (simp add: pulse_frames_def MIN_SAMPLES_FOR_ANALYSIS_def MAX_SAMPLES_def)
  from early_frames [OF this] show ?thesis by (simp only: pulse_frames_samples)
qed

lemma frame_100:
  "processFrame (Num 0) 9900 (initial_monitor\<lparr> SAMPLE_BUFFER := pulse_samples 99 \<rparr>)
   = (monitor_after_100, Some (Status ''Detecting...''))"
proof -
  let ?st = "initial_monitor\<lparr> SAMPLE_BUFFER := pulse_samples 99 \<rparr>"
  have buf: "push_sample (SAMPLE_BUFFER ?st) \<lparr> sample_value = Num 0, sample_time = 9900 \<rparr>
             = pulse_samples 100"
    by (simp add: push_pulse_99)
  have "sig_good (analyzeSignalQuality
          (push_sample (SAMPLE_BUFFER ?st) \<lparr> sample_value = Num 0, sample_time = 9900 \<rparr>)
          (analyzeData
             (push_sample (SAMPLE_BUFFER ?st) \<lparr> sample_value = Num 0, sample_time = 9900 \<rparr>)))"
    unfolding buf pulse_100_good by simp
  from processFrame_good [OF this]
  have "processFrame (Num 0) 9900 ?st =
          stabilizer
            (rawBpmConsistencyFilter (Some (Num 75)) 9900 (Num 1)
               (?st\<lparr> SAMPLE_BUFFER := pulse_samples 100,
                     lastSignalQualityStatus := ''Good Signal'' \<rparr>))"
    unfolding buf Let_def pulse_100_good by (simp add: pulse_100_stats pulse_100_bpm)
  also have "rawBpmConsistencyFilter (Some (Num 75)) 9900 (Num 1)
               (?st\<lparr> SAMPLE_BUFFER := pulse_samples 100,
                     lastSignalQualityStatus := ''Good Signal'' \<rparr>) = monitor_after_100"
    by (simp add: rawBpmConsistencyFilter_def js_ge_def Let_def initial_monitor_def
          monitor_after_100_def RAW_BPM_VALIDITY_WINDOW_MS_def
          MIN_CONSISTENT_RAW_BPMS_FOR_CANDIDATE_def)
  also have "stabilizer monitor_after_100 = (monitor_after_100, Some (Status ''Detecting...''))"
    by (simp add: stabilizer_def monitor_after_100_def REQUIRED_STABILITY_COUNT_def)
  finally show ?thesis .
qed

lemma monitor_after_pulse_100: "monitor_after (pulse_frames 100) = monitor_after_100"
proof -
  have "pulse_frames (Suc 99) = pulse_frames 99 @ [(Num (pulse 99), 100 * int 99)]"
    by (rule pulse_frames_Suc)
  then have "pulse_frames 100 = pulse_frames 99 @ [(Num 0, 9900)]"
    by (simp add: pulse_def)
  then show ?thesis
    by (simp only: monitor_after_snoc monitor_after_99 frame_100 fst_conv)
qed

lemma frame_late:
  "processFrame (Num 1) 12000 monitor_after_100
   = (monitor_after_100\<lparr> SAMPLE_BUFFER := pulse_samples 100 @ [late_sample] \<rparr>,
      Some (Status ''Detecting...''))"
proof -
  have buf: "push_sample (SAMPLE_BUFFER monitor_after_100)
               \<lparr> sample_value = Num 1, sample_time = 12000 \<rparr>
             = pulse_samples 100 @ [late_sample]"
    using push_pulse_late by (simp add: monitor_after_100_def late_sample_def)
  have "sig_good (analyzeSignalQuality
          (push_sample (SAMPLE_BUFFER monitor_after_100) \<lparr> sample_value = Num 1, sample_time = 12000 \<rparr>)
          (analyzeData
             (push_sample (SAMPLE_BUFFER monitor_after_100) \<lparr> sample_value = Num 1, sample_time = 12000 \<rparr>)))"
    unfolding buf pulse_late_good by simp
  from processFrame_good [OF this]
  have "processFrame (Num 1) 12000 monitor_after_100 =
          stabilizer
            (rawBpmConsistencyFilter None 12000 (Num 1)
               (monitor_after_100\<lparr> SAMPLE_BUFFER := pulse_samples 100 @ [late_sample],
                     lastSignalQualityStatus := ''Good Signal'' \<rparr>))"
    unfolding buf Let_def pulse_late_good by (simp add: pulse_late_stats pulse_late_bpm)
  also have "rawBpmConsistencyFilter None 12000 (Num 1)
               (monitor_after_100\<lparr> SAMPLE_BUFFER := pulse_samples 100 @ [late_sample],
                     lastSignalQualityStatus := ''Good Signal'' \<rparr>)
             = monitor_after_100\<lparr> SAMPLE_BUFFER := pulse_samples 100 @ [late_sample] \<rparr>"
    by (simp add: rawBpmConsistencyFilter_def monitor_after_100_def)
  also have "stabilizer (monitor_after_100\<lparr> SAMPLE_BUFFER := pulse_samples 100 @ [late_sample] \<rparr>)
             = (monitor_after_100\<lparr> SAMPLE_BUFFER := pulse_samples 100 @ [late_sample] \<rparr>,
                Some (Status ''Detecting...''))"
    by (simp add: stabilizer_def monitor_after_100_def REQUIRED_STABILITY_COUNT_def)
  finally show ?thesis .
qed

lemma forming_inv: "monitor_inv forming_monitor"
  by (simp add: monitor_inv_def forming_monitor_def bpm_in_range_def js_ge_def)

lemma forming_buf:
  "push_sample (SAMPLE_BUFFER forming_monitor) \<lparr> sample_value = Num 0, sample_time = 9900 \<rparr>
   = pulse_samples 100"
  using push_pulse_99 by (simp add: forming_monitor_def)

lemma forming_good:
  "sig_good (analyzeSignalQuality
      (push_sample (SAMPLE_BUFFER forming_monitor) \<lparr> sample_value = Num 0, sample_time = 9900 \<rparr>)
      (analyzeData
         (push_sample (SAMPLE_BUFFER forming_monitor) \<lparr> sample_value = Num 0, sample_time = 9900 \<rparr>)))"
  unfolding forming_buf pulse_100_good by simp


section \<open>The stabilizer on a frame\<close>



section \<open>The consistency filter on a frame\<close>

text \<open>
  Claim C3, as stated, for every frame: it fails. After its first 100 frames the pulse train
  has left one raw BPM in the window, taken at 9900 ms. The frame at 12000 ms has a good
  verdict and no raw BPM; the filter is then not entered, and the observation, 2100 ms
  old, is still in the window after the frame.
\<close>

theorem stale_observation_survives_a_good_tick:
  "reachable (monitor_after (pulse_frames 100))
   \<and> sig_good (analyzeSignalQuality
        (push_sample (SAMPLE_BUFFER (monitor_after (pulse_frames 100)))
           \<lparr> sample_value = Num 1, sample_time = 12000 \<rparr>)
        (analyzeData
           (push_sample (SAMPLE_BUFFER (monitor_after (pulse_frames 100)))
              \<lparr> sample_value = Num 1, sample_time = 12000 \<rparr>)))
   \<and> recentValidRawBpms (fst (processFrame (Num 1) 12000 (monitor_after (pulse_frames 100))))
       = [\<lparr> rb_bpm = Num 75, rb_time = 9900, rb_range = Num 1 \<rparr>]
   \<and> \<not> (12000 - rb_time \<lparr> rb_bpm = Num 75, rb_time = 9900, rb_range = Num 1 \<rparr>
          < RAW_BPM_VALIDITY_WINDOW_MS)"
proof -
  have buf: "push_sample (SAMPLE_BUFFER monitor_after_100)
               \<lparr> sample_value = Num 1, sample_time = 12000 \<rparr>
             = pulse_samples 100 @ [late_sample]"
    using push_pulse_late by (simp add: monitor_after_100_def late_sample_def)
  show ?thesis
    unfolding monitor_after_pulse_100 buf pulse_late_good frame_late
    using reachable_monitor_after [of "pulse_frames 100"]
    by (simp add: monitor_after_pulse_100 monitor_after_100_def RAW_BPM_VALIDITY_WINDOW_MS_def)
qed

text \<open>
  Claim C3, amended. On a frame with a good verdict and a raw BPM in [30, 220], the raw BPM
  is appended to the window and the observations of age 2000 ms or more are dropped
  before the consistency test, so every observation kept is younger than 2000 ms; then,
  with three observations or more whose BPMs spread over at most 10, their median is
  pushed into the candidate buffer of capacity 5, the oldest candidate leaving a full
  buffer; with fewer observations or a wider spread no candidate is pushed and the window
  stays as filtered. On a frame with a good verdict and no raw BPM, or one outside
  [30, 220], the window and the candidate buffer are left as they are.
\<close>

theorem consistency_filter_on_good_tick:
  fixes v t st r b c
  defines "buf \<equiv> push_sample (SAMPLE_BUFFER st) \<lparr> sample_value = v, sample_time = t \<rparr>"
  defines "stats \<equiv> analyzeData buf"
  defines "rawBpm \<equiv> calculateBpm (ds_crossings stats)"
  defines "st' \<equiv> fst (processFrame v t st)"
  defines "recent \<equiv> filter (\<lambda>rb. t - rb_time rb < RAW_BPM_VALIDITY_WINDOW_MS)
                      (recentValidRawBpms st
                         @ [\<lparr> rb_bpm = r, rb_time = t, rb_range = ds_range stats \<rparr>])"
  defines "bpms \<equiv> numbers (map rb_bpm recent)"
  assumes inv: "monitor_inv st" and good: "sig_good (analyzeSignalQuality buf stats)"
  shows "(rawBpm = Some r \<and> bpm_in_range r \<longrightarrow>
            recentValidRawBpms st' = recent
            \<and> (\<forall>rb\<in>set (recentValidRawBpms st'). t - rb_time rb < RAW_BPM_VALIDITY_WINDOW_MS)
            \<and> (MIN_CONSISTENT_RAW_BPMS_FOR_CANDIDATE \<le> length recent
                 \<and> Max (set bpms) - Min (set bpms) \<le> 10 \<longrightarrow>
                 stableBpmCandidateBuffer st'
                 = push_candidate (stableBpmCandidateBuffer st) (Num (median_spec bpms)))
            \<and> (length recent < MIN_CONSISTENT_RAW_BPMS_FOR_CANDIDATE
                 \<or> 10 < Max (set bpms) - Min (set bpms) \<longrightarrow>
                 stableBpmCandidateBuffer st' = stableBpmCandidateBuffer st))
       \<and> (rawBpm = None \<or> (rawBpm = Some r \<and> \<not> bpm_in_range r) \<longrightarrow>
            recentValidRawBpms st' = recentValidRawBpms st
            \<and> stableBpmCandidateBuffer st' = stableBpmCandidateBuffer st)
       \<and> (length b < STABLE_BPM_CANDIDATE_BUFFER_SIZE \<longrightarrow> push_candidate b c = b @ [c])
       \<and> (length b = STABLE_BPM_CANDIDATE_BUFFER_SIZE \<longrightarrow> push_candidate b c = tl b @ [c])"
proof -
  let ?st1 = "st\<lparr> SAMPLE_BUFFER := buf,
                   lastSignalQualityStatus := sig_status (analyzeSignalQuality buf stats) \<rparr>"
  have pf: "processFrame v t st = stabilizer (rawBpmConsistencyFilter rawBpm t (ds_range stats) ?st1)"
    using good unfolding buf_def stats_def rawBpm_def
    by (simp add: processFrame_good Let_def)
  have w: "recentValidRawBpms st' = recentValidRawBpms (rawBpmConsistencyFilter rawBpm t (ds_range stats) ?st1)"
    and cb: "stableBpmCandidateBuffer st'
             = stableBpmCandidateBuffer (rawBpmConsistencyFilter rawBpm t (ds_range stats) ?st1)"
    unfolding st'_def pf by (simp_all add: stabilizer_frame)
  from inv have win: "list_all (\<lambda>rb. bpm_in_range (rb_bpm rb)) (recentValidRawBpms ?st1)"
    by (simp add: monitor_inv_def)
  have accepted: "rawBpm = Some r \<and> bpm_in_range r \<longrightarrow>
            recentValidRawBpms st' = recent
            \<and> (\<forall>rb\<in>set (recentValidRawBpms st'). t - rb_time rb < RAW_BPM_VALIDITY_WINDOW_MS)
            \<and> (MIN_CONSISTENT_RAW_BPMS_FOR_CANDIDATE \<le> length recent
                 \<and> Max (set bpms) - Min (set bpms) \<le> 10 \<longrightarrow>
                 stableBpmCandidateBuffer st'
                 = push_candidate (stableBpmCandidateBuffer st) (Num (median_spec bpms)))
            \<and> (length recent < MIN_CONSISTENT_RAW_BPMS_FOR_CANDIDATE
                 \<or> 10 < Max (set bpms) - Min (set bpms) \<longrightarrow>
                 stableBpmCandidateBuffer st' = stableBpmCandidateBuffer st)"
  proof
    assume a: "rawBpm = Some r \<and> bpm_in_range r"
    then have acc: "bpm_in_range r" and raw: "rawBpm = Some r" by simp_all
    note spec = rawBpmConsistencyFilter_spec [OF acc win, of t "ds_range stats"]
    have 1: "recentValidRawBpms st' = recent"
      unfolding w raw using spec(1) by (simp add: recent_def)
    have 2: "\<forall>rb\<in>set (recentValidRawBpms st'). t - rb_time rb < RAW_BPM_VALIDITY_WINDOW_MS"
      unfolding 1 by (simp add: recent_def)
    have 3: "MIN_CONSISTENT_RAW_BPMS_FOR_CANDIDATE \<le> length recent
                 \<and> Max (set bpms) - Min (set bpms) \<le> 10 \<longrightarrow>
                 stableBpmCandidateBuffer st'
                 = push_candidate (stableBpmCandidateBuffer st) (Num (median_spec bpms))"
      unfolding cb raw using spec(3) by (simp add: recent_def bpms_def)
    have 4: "length recent < MIN_CONSISTENT_RAW_BPMS_FOR_CANDIDATE
                 \<or> 10 < Max (set bpms) - Min (set bpms) \<longrightarrow>
                 stableBpmCandidateBuffer st' = stableBpmCandidateBuffer st"
      unfolding cb raw using spec(4) by (simp add: recent_def bpms_def)
    from 1 2 3 4 show "recentValidRawBpms st' = recent
            \<and> (\<forall>rb\<in>set (recentValidRawBpms st'). t - rb_time rb < RAW_BPM_VALIDITY_WINDOW_MS)
            \<and> (MIN_CONSISTENT_RAW_BPMS_FOR_CANDIDATE \<le> length recent
                 \<and> Max (set bpms) - Min (set bpms) \<le> 10 \<longrightarrow>
                 stableBpmCandidateBuffer st'
                 = push_candidate (stableBpmCandidateBuffer st) (Num (median_spec bpms)))
            \<and> (length recent < MIN_CONSISTENT_RAW_BPMS_FOR_CANDIDATE
                 \<or> 10 < Max (set bpms) - Min (set bpms) \<longrightarrow>
                 stableBpmCandidateBuffer st' = stableBpmCandidateBuffer st)"
      by blast
  qed
  have rejected: "rawBpm = None \<or> (rawBpm = Some r \<and> \<not> bpm_in_range r) \<longrightarrow>
            recentValidRawBpms st' = recentValidRawBpms st
            \<and> stableBpmCandidateBuffer st' = stableBpmCandidateBuffer st"
  proof
    assume h: "rawBpm = None \<or> (rawBpm = Some r \<and> \<not> bpm_in_range r)"
    have "rawBpmConsistencyFilter rawBpm t (ds_range stats) ?st1 = ?st1"
    proof (cases rawBpm)
      case None
      then show ?thesis by (simp add: rawBpmConsistencyFilter_def)
    next
      case (Some a)
      with h have "\<not> bpm_in_range a" by simp
      with Some show ?thesis by (simp add: filter_rejects)
    qed
    then show "recentValidRawBpms st' = recentValidRawBpms st
            \<and> stableBpmCandidateBuffer st' = stableBpmCandidateBuffer st"
      unfolding w cb by simp
  qed
  from accepted rejected push_candidate_not_full [of b c] push_candidate_full [of b c]
  show ?thesis by blast
qed

theorem consistency_filter_on_good_tick_witness:
  "monitor_inv forming_monitor
   \<and> sig_good (analyzeSignalQuality
        (push_sample (SAMPLE_BUFFER forming_monitor) \<lparr> sample_value = Num 0, sample_time = 9900 \<rparr>)
        (analyzeData
           (push_sample (SAMPLE_BUFFER forming_monitor) \<lparr> sample_value = Num 0, sample_time = 9900 \<rparr>)))
   \<and> calculateBpm (ds_crossings (analyzeData
        (push_sample (SAMPLE_BUFFER forming_monitor) \<lparr> sample_value = Num 0, sample_time = 9900 \<rparr>)))
       = Some (Num 75)
   \<and> bpm_in_range (Num 75)
   \<and> recentValidRawBpms (fst (processFrame (Num 0) 9900 forming_monitor))
       = [\<lparr> rb_bpm = Num 76, rb_time = 9700, rb_range = Num 1 \<rparr>,
          \<lparr> rb_bpm = Num 74, rb_time = 9800, rb_range = Num 1 \<rparr>,
          \<lparr> rb_bpm = Num 75, rb_time = 9900, rb_range = Num 1 \<rparr>]
   \<and> stableBpmCandidateBuffer (fst (processFrame (Num 0) 9900 forming_monitor))
       = [Num 74, Num 75, Num 76, Num 75, Num 75]
   \<and> monitor_inv monitor_after_100
   \<and> sig_good (analyzeSignalQuality
        (push_sample (SAMPLE_BUFFER monitor_after_100) \<lparr> sample_value = Num 1, sample_time = 12000 \<rparr>)
        (analyzeData
           (push_sample (SAMPLE_BUFFER monitor_after_100) \<lparr> sample_value = Num 1, sample_time = 12000 \<rparr>)))
   \<and> calculateBpm (ds_crossings (analyzeData
        (push_sample (SAMPLE_BUFFER monitor_after_100) \<lparr> sample_value = Num 1, sample_time = 12000 \<rparr>)))
       = None
   \<and> recentValidRawBpms (fst (processFrame (Num 1) 12000 monitor_after_100))
       = recentValidRawBpms monitor_after_100
   \<and> stableBpmCandidateBuffer (fst (processFrame (Num 1) 12000 monitor_after_100))
       = stableBpmCandidateBuffer monitor_after_100
   \<and> length [Num 80, Num 74, Num 75, Num 76, Num 75] = STABLE_BPM_CANDIDATE_BUFFER_SIZE
   \<and> push_candidate [Num 80, Num 74, Num 75, Num 76, Num 75] (Num 75)
       = [Num 74, Num 75, Num 76, Num 75, Num 75]
   \<and> length [Num 74] < STABLE_BPM_CANDIDATE_BUFFER_SIZE
   \<and> push_candidate [Num 74] (Num 75) = [Num 74, Num 75]"
proof -
  have raw: "calculateBpm (ds_crossings (analyzeData
        (push_sample (SAMPLE_BUFFER forming_monitor) \<lparr> sample_value = Num 0, sample_time = 9900 \<rparr>)))
       = Some (Num 75)"
    unfolding forming_buf by (simp add: pulse_100_stats pulse_100_bpm)
  have acc: "bpm_in_range (Num 75)" by (simp add: bpm_in_range_def js_ge_def)
  have rng: "ds_range (analyzeData
        (push_sample (SAMPLE_BUFFER forming_monitor) \<lparr> sample_value = Num 0, sample_time = 9900 \<rparr>))
       = Num 1"
    unfolding forming_buf by (simp add: pulse_100_stats)
  have inv2: "monitor_inv monitor_after_100"
    by (simp add: monitor_inv_def monitor_after_100_def bpm_in_range_def js_ge_def)
  have buf2: "push_sample (SAMPLE_BUFFER monitor_after_100)
               \<lparr> sample_value = Num 1, sample_time = 12000 \<rparr>
             = pulse_samples 100 @ [late_sample]"
    using push_pulse_late by (simp add: monitor_after_100_def late_sample_def)
  have good2: "sig_good (analyzeSignalQuality
        (push_sample (SAMPLE_BUFFER monitor_after_100) \<lparr> sample_value = Num 1, sample_time = 12000 \<rparr>)
        (analyzeData
           (push_sample (SAMPLE_BUFFER monitor_after_100) \<lparr> sample_value = Num 1, sample_time = 12000 \<rparr>)))"
    unfolding buf2 pulse_late_good by simp
  have raw2: "calculateBpm (ds_crossings (analyzeData
        (push_sample (SAMPLE_BUFFER monitor_after_100) \<lparr> sample_value = Num 1, sample_time = 12000 \<rparr>)))
       = None"
    unfolding buf2 by (simp add: pulse_late_stats pulse_late_bpm)
  note a = consistency_filter_on_good_tick
             [OF forming_inv forming_good, of "Num 75" "[Num 80, Num 74, Num 75, Num 76, Num 75]" "Num 75"]
  note b = consistency_filter_on_good_tick
             [OF inv2 good2, of "Num 75" "[Num 74]" "Num 75"]
  from a raw acc
  have a1: "recentValidRawBpms (fst (processFrame (Num 0) 9900 forming_monitor))
       = [\<lparr> rb_bpm = Num 76, rb_time = 9700, rb_range = Num 1 \<rparr>,
          \<lparr> rb_bpm = Num 74, rb_time = 9800, rb_range = Num 1 \<rparr>,
          \<lparr> rb_bpm = Num 75, rb_time = 9900, rb_range = Num 1 \<rparr>]"
    unfolding rng by (simp add: forming_monitor_def RAW_BPM_VALIDITY_WINDOW_MS_def)
  from a raw acc
  have a2: "stableBpmCandidateBuffer (fst (processFrame (Num 0) 9900 forming_monitor))
       = [Num 74, Num 75, Num 76, Num 75, Num 75]"
    unfolding rng
    by (simp add: forming_monitor_def RAW_BPM_VALIDITY_WINDOW_MS_def
          MIN_CONSISTENT_RAW_BPMS_FOR_CANDIDATE_def median_spec_def
          STABLE_BPM_CANDIDATE_BUFFER_SIZE_def)
  from b raw2
  have b1: "recentValidRawBpms (fst (processFrame (Num 1) 12000 monitor_after_100))
       = recentValidRawBpms monitor_after_100
   \<and> stableBpmCandidateBuffer (fst (processFrame (Num 1) 12000 monitor_after_100))
       = stableBpmCandidateBuffer monitor_after_100"
    by simp
  from a have p1: "push_candidate [Num 80, Num 74, Num 75, Num 76, Num 75] (Num 75)
       = [Num 74, Num 75, Num 76, Num 75, Num 75]"
    by (simp add: STABLE_BPM_CANDIDATE_BUFFER_SIZE_def)
  from b have p2: "push_candidate [Num 74] (Num 75) = [Num 74, Num 75]"
    by (simp add: STABLE_BPM_CANDIDATE_BUFFER_SIZE_def)
  from forming_inv forming_good raw acc a1 a2 inv2 good2 raw2 b1 p1 p2 show ?thesis
    by (simp add: STABLE_BPM_CANDIDATE_BUFFER_SIZE_def)
qed

section \<open>A noisy buffer\<close>

lemma noisy_length: "length noisy_samples = 100"
  by (simp add: noisy_samples_def)

lemma noisy_hd: "sample_value (hd noisy_samples) = Num (1 / 4)"
  by code_simp

lemma noisy_sum: "foldl js_add (Num 0) (map sample_value noisy_samples) = Num 50"
  by code_simp

lemma noisy_max: "foldl track_max (Num (1 / 4)) noisy_samples = Num (3 / 4)"
  by code_simp

lemma noisy_min: "foldl track_min (Num (1 / 4)) noisy_samples = Num (1 / 4)"
  by code_simp

lemma noisy_crossings: "length (getAverageCrossings noisy_samples (Num (1 / 2))) = 50"
  by code_simp

lemma noisy_values_length: "length (numbers (map sample_value noisy_samples)) = 100"
  by code_simp

lemma noisy_values_sum: "sum_list (numbers (map sample_value noisy_samples)) = 50"
  by code_simp

lemma noisy_values_squares:
  "sum_list (map (\<lambda>x. (x - 1 / 2)\<^sup>2) (numbers (map sample_value noisy_samples))) = 25 / 4"
  by code_simp

lemma noisy_stats:
  "ds_average (analyzeData noisy_samples) = Num (1 / 2)"
  "ds_range (analyzeData noisy_samples) = Num (1 / 2)"
  "length (ds_crossings (analyzeData noisy_samples)) = 50"
proof -
  have ne: "noisy_samples \<noteq> []" using noisy_length by auto
  have avg: "js_div (foldl js_add (Num 0) (map sample_value noisy_samples))
               (Num (real (length noisy_samples))) = Num (1 / 2)"
    by (simp add: noisy_sum noisy_length)
  show "ds_average (analyzeData noisy_samples) = Num (1 / 2)"
    unfolding analyzeData_nonempty [OF ne] avg by simp
  show "ds_range (analyzeData noisy_samples) = Num (1 / 2)"
    unfolding analyzeData_nonempty [OF ne] noisy_hd noisy_max noisy_min by simp
  show "length (ds_crossings (analyzeData noisy_samples)) = 50"
    unfolding analyzeData_nonempty [OF ne] avg by (simp add: noisy_crossings)
qed

lemma noisy_stdDev_spec: "stdDev_spec (numbers (map sample_value noisy_samples)) = 1 / 4"
proof -
  have "stdDev_spec (numbers (map sample_value noisy_samples)) = sqrt (1 / 16)"
    by (simp add: stdDev_spec_def noisy_values_length noisy_values_sum noisy_values_squares)
  also have "sqrt (1 / 16) = (1 / 4 :: real)"
    by (rule real_sqrt_unique) (simp_all add: power2_eq_square)
  finally show ?thesis .
qed

text \<open>
  Claim C2, on the code: it fails. The buffer of 100 samples alternating between 0.25 and
  0.75 is long enough, its range 0.5 is above the minimum, and the standard deviation of
  its values, 0.25, divided by the range exceeds 0.35; but \<open>calculateStdDev\<close> returns
  \<open>NaN\<close> and the verdict is Good Signal, not Noisy.
\<close>

theorem noisy_buffer_is_not_reported_noisy:
  "\<not> length noisy_samples < MIN_SAMPLES_FOR_ANALYSIS
   \<and> ds_range (analyzeData noisy_samples) = Num (1 / 2)
   \<and> \<not> js_lt (ds_range (analyzeData noisy_samples)) MIN_SIGNAL_RANGE
   \<and> stdDev_spec (numbers (map sample_value noisy_samples)) = 1 / 4
   \<and> js_gt (js_div (Num (stdDev_spec (numbers (map sample_value noisy_samples))))
              (ds_range (analyzeData noisy_samples)))
        MAX_SIGNAL_STD_DEV_RATIO
   \<and> calculateStdDev (map sample_value noisy_samples) (ds_average (analyzeData noisy_samples))
       = NaN
   \<and> analyzeSignalQuality noisy_samples (analyzeData noisy_samples)
       = \<lparr> sig_good = True, sig_status = ''Good Signal'' \<rparr>"
proof -
  have ne: "map sample_value noisy_samples \<noteq> []" using noisy_length by auto
  have good: "analyzeSignalQuality noisy_samples (analyzeData noisy_samples)
       = \<lparr> sig_good = True, sig_status = ''Good Signal'' \<rparr>"
    by (rule gate_good_intro)
       (simp_all add: noisy_stats noisy_length MIN_SAMPLES_FOR_ANALYSIS_def MAX_SAMPLES_def
          MIN_SIGNAL_RANGE_def MIN_CROSSINGS_FOR_RAW_BPM_def)
  from good calculateStdDev_nonempty [OF ne] show ?thesis
    by (simp add: noisy_stats noisy_length noisy_stdDev_spec MIN_SAMPLES_FOR_ANALYSIS_def
          MAX_SAMPLES_def MIN_SIGNAL_RANGE_def MAX_SIGNAL_STD_DEV_RATIO_def js_gt_def)
qed

end
